theory Spec2Isabelle
  imports Main
begin

section \<open>Opt: a value with an "explicitly set" flag\<close>

text \<open>
  The Go struct \<open>Opt[T]\<close> has the exported field \<open>Value\<close> and the unexported flag
  \<open>isSet\<close>. A pointer to an \<open>Opt\<close> is modelled by the record it points to; \<open>Set\<close>
  returns the updated record.
\<close>

record 'a Opt =
  Value :: 'a
  isSet :: bool

definition NewOpt :: "'a \<Rightarrow> 'a Opt" where
  "NewOpt v = \<lparr>Value = v, isSet = False\<rparr>"

definition Get :: "'a Opt \<Rightarrow> 'a" where
  "Get sv = Value sv"

definition Set_opt :: "'a \<Rightarrow> 'a Opt \<Rightarrow> 'a Opt" where
  "Set_opt v sv = (sv\<lparr>Value := v\<rparr>)\<lparr>isSet := True\<rparr>"

definition IsSet :: "'a Opt \<Rightarrow> bool" where
  "IsSet sv = isSet sv"

text \<open>
  The three methods of an \<open>Opt\<close>, as calls a client can make one after another.
  \<open>Get\<close> and \<open>IsSet\<close> only read; \<open>Set\<close> is the only method that writes.
\<close>

datatype 'a opt_call = CallGet | CallSet 'a | CallIsSet

fun opt_step :: "'a Opt \<Rightarrow> 'a opt_call \<Rightarrow> 'a Opt" where
  "opt_step sv CallGet = sv"
| "opt_step sv (CallSet v) = Set_opt v sv"
| "opt_step sv CallIsSet = sv"

definition opt_run :: "'a opt_call list \<Rightarrow> 'a Opt \<Rightarrow> 'a Opt" where
  "opt_run cs sv = foldl opt_step sv cs"

fun set_args :: "'a opt_call list \<Rightarrow> 'a list" where
  "set_args [] = []"
| "set_args (CallSet v # cs) = v # set_args cs"
| "set_args (CallGet # cs) = set_args cs"
| "set_args (CallIsSet # cs) = set_args cs"

section \<open>Panics of the guard library\<close>

text \<open>
  The guards \<open>must.Full\<close>, \<open>must.Nice\<close>, \<open>must.Have\<close> and \<open>mustslice.In\<close> panic
  when their argument is a nil pointer, a zero value (for a string: the empty string),
  an empty slice, or a value missing from the slice. A panic is the \<open>Inl\<close> of a result.
\<close>

datatype error =
  NilPointerPanic
| ZeroValuePanic
| EmptySlicePanic
| NotInSlicePanic
| ImpossibleInvalidType

definition and_then :: "error + 'a \<Rightarrow> ('a \<Rightarrow> error + 'b) \<Rightarrow> error + 'b" where
  "and_then r f = (case r of Inl e \<Rightarrow> Inl e | Inr x \<Rightarrow> f x)"

definition must_Full :: "'a option \<Rightarrow> error + 'a" where
  "must_Full v = (case v of None \<Rightarrow> Inl NilPointerPanic | Some x \<Rightarrow> Inr x)"

definition must_Nice :: "string \<Rightarrow> error + string" where
  "must_Nice a = (if a = [] then Inl ZeroValuePanic else Inr a)"

definition must_Have :: "'a list \<Rightarrow> error + 'a list" where
  "must_Have a = (if length a = 0 then Inl EmptySlicePanic else Inr a)"

definition mustslice_In :: "'a \<Rightarrow> 'a list \<Rightarrow> error + unit" where
  "mustslice_In v slice = (if v \<in> set slice then Inr () else Inl NotInSlicePanic)"

section \<open>Standard library functions used by the renderer\<close>

text \<open>\<open>strings.Join\<close>.\<close>

fun strings_Join :: "string list \<Rightarrow> string \<Rightarrow> string" where
  "strings_Join [] sep = []"
| "strings_Join [x] sep = x"
| "strings_Join (x # y # ys) sep = x @ sep @ strings_Join (y # ys) sep"

text \<open>\<open>strconv.FormatBool\<close> and \<open>strconv.Itoa\<close> (decimal, with a minus sign).\<close>

definition FormatBool :: "bool \<Rightarrow> string" where
  "FormatBool b = (if b then ''true'' else ''false'')"

definition digit :: "nat \<Rightarrow> char" where
  "digit d = ''0123456789'' ! d"

fun digits_of :: "nat \<Rightarrow> string" where
  "digits_of n = (if n < 10 then [digit n] else digits_of (n div 10) @ [digit (n mod 10)])"

definition Itoa :: "int \<Rightarrow> string" where
  "Itoa i = (if i < 0 then CHR ''-'' # digits_of (nat (- i)) else digits_of (nat i))"

text \<open>
  \<open>filepath.Join\<close> on Unix: the elements from the first non-empty one on are joined
  with a slash and the result is cleaned (\<open>filepath.Clean\<close>): repeated slashes and
  \<open>.\<close> elements go away, an inner \<open>..\<close> removes the element before it, a \<open>..\<close> at
  the start of a rooted path goes away, and the empty result is \<open>.\<close>.
\<close>

fun split_slash :: "string \<Rightarrow> string list" where
  "split_slash [] = [[]]"
| "split_slash (c # cs) =
     (if c = CHR ''/'' then [] # split_slash cs
      else (case split_slash cs of [] \<Rightarrow> [[c]] | x # xs \<Rightarrow> (c # x) # xs))"

fun clean_elems :: "bool \<Rightarrow> string list \<Rightarrow> string list \<Rightarrow> string list" where
  "clean_elems rooted out [] = rev out"
| "clean_elems rooted out (e # es) =
     (if e = [] \<or> e = ''.'' then clean_elems rooted out es
      else if e = ''..'' then
        (case out of
           [] \<Rightarrow> if rooted then clean_elems rooted out es else clean_elems rooted (e # out) es
         | a # as \<Rightarrow> if a = ''..'' then clean_elems rooted (e # out) es
                     else clean_elems rooted as es)
      else clean_elems rooted (e # out) es)"

definition Clean :: "string \<Rightarrow> string" where
  "Clean path =
     (if path = [] then ''.''
      else
        let rooted = (hd path = CHR ''/'');
            body = strings_Join (clean_elems rooted [] (split_slash path)) ''/''
        in if rooted then CHR ''/'' # body
           else if body = [] then ''.'' else body)"

definition filepath_Join :: "string list \<Rightarrow> string" where
  "filepath_Join elem =
     (case dropWhile (\<lambda>e. e = []) elem of
        [] \<Rightarrow> []
      | e # es \<Rightarrow> Clean (strings_Join (e # es) ''/''))"

text \<open>
  \<open>strings.TrimSpace\<close> removes leading and trailing white space as Unicode defines it.
  A Go string is a sequence of bytes holding UTF-8: the white space characters are six
  ASCII bytes, two characters of two bytes and seventeen of three bytes.
\<close>

definition ascii_space :: "char \<Rightarrow> bool" where
  "ascii_space c = (c \<in> set [CHR 0x09, CHR 0x0A, CHR 0x0B, CHR 0x0C, CHR 0x0D, CHR 0x20])"

definition space2 :: "char \<Rightarrow> char \<Rightarrow> bool" where
  "space2 a b = (a = CHR 0xC2 \<and> (b = CHR 0x85 \<or> b = CHR 0xA0))"

definition space3 :: "char \<Rightarrow> char \<Rightarrow> char \<Rightarrow> bool" where
  "space3 a b c =
     ((a = CHR 0xE1 \<and> b = CHR 0x9A \<and> c = CHR 0x80)
      \<or> (a = CHR 0xE2 \<and> b = CHR 0x80
          \<and> c \<in> set [CHR 0x80, CHR 0x81, CHR 0x82, CHR 0x83, CHR 0x84, CHR 0x85, CHR 0x86,
                      CHR 0x87, CHR 0x88, CHR 0x89, CHR 0x8A, CHR 0xA8, CHR 0xA9, CHR 0xAF])
      \<or> (a = CHR 0xE2 \<and> b = CHR 0x81 \<and> c = CHR 0x9F)
      \<or> (a = CHR 0xE3 \<and> b = CHR 0x80 \<and> c = CHR 0x80))"

fun trim_front :: "(char \<Rightarrow> char \<Rightarrow> bool) \<Rightarrow> (char \<Rightarrow> char \<Rightarrow> char \<Rightarrow> bool) \<Rightarrow> string \<Rightarrow> string" where
  "trim_front p2 p3 (a # b # c # s) =
     (if ascii_space a then trim_front p2 p3 (b # c # s)
      else if p2 a b then trim_front p2 p3 (c # s)
      else if p3 a b c then trim_front p2 p3 s
      else a # b # c # s)"
| "trim_front p2 p3 [a, b] =
     (if ascii_space a then trim_front p2 p3 [b]
      else if p2 a b then []
      else [a, b])"
| "trim_front p2 p3 [a] = (if ascii_space a then [] else [a])"
| "trim_front p2 p3 [] = []"

definition TrimSpace :: "string \<Rightarrow> string" where
  "TrimSpace s =
     rev (trim_front (\<lambda>b a. space2 a b) (\<lambda>c b a. space3 a b c)
            (rev (trim_front space2 space3 s)))"

section \<open>The print buffer\<close>

text \<open>
  \<open>printgo.PTX\<close> is a byte buffer; \<open>Println\<close> appends its operands, separated by
  spaces, and a newline, as \<open>fmt.Fprintln\<close> does; \<open>String\<close> reads the buffer.
\<close>

record PTX =
  buf :: string

definition NewPTX :: PTX where
  "NewPTX = \<lparr>buf = []\<rparr>"

definition Println :: "string list \<Rightarrow> PTX \<Rightarrow> PTX" where
  "Println args ptx = ptx\<lparr>buf := buf ptx @ strings_Join args '' '' @ [CHR 0x0A]\<rparr>"

definition String_ptx :: "PTX \<Rightarrow> string" where
  "String_ptx ptx = buf ptx"

section \<open>Program configuration\<close>

text \<open>
  The field \<open>AutoRestart\<close> has the Go type \<open>any\<close>: the renderer tells a \<open>bool\<close>, a
  \<open>string\<close> and everything else apart. Go's \<open>int\<close> values are only stored and printed,
  so they are integers here. A Go map is a finite partial function; the pointers to the
  \<open>Opt\<close> fields are modelled by the records they point to.
\<close>

datatype any = AnyBool bool | AnyString string | AnyOther

record ProgramConfig =
  Name :: string
  UserName :: string
  Root :: string
  SlogRoot :: string
  Environment :: "(string \<rightharpoonup> string) Opt"
  AutoStart :: "bool Opt"
  AutoRestart :: "any Opt"
  StartRetries :: "int Opt"
  StartSecs :: "int Opt"
  LogMaxBytes :: "string Opt"
  LogBackups :: "int Opt"
  RedirectStderr :: "bool Opt"
  StopAsGroup :: "bool Opt"
  StopWaitSecs :: "int Opt"
  KillAsGroup :: "bool Opt"
  StopSignal :: "string Opt"
  Priority :: "int Opt"
  ExitCodes :: "int list Opt"
  NumProcs :: "int Opt"
  ProcessName :: "string Opt"

definition NewProgramConfig :: "string \<Rightarrow> string \<Rightarrow> string \<Rightarrow> string \<Rightarrow> error + ProgramConfig" where
  "NewProgramConfig name root userName slogRoot =
     and_then (must_Nice name) (\<lambda>name'.
     and_then (must_Nice userName) (\<lambda>userName'.
     and_then (must_Nice root) (\<lambda>root'.
     and_then (must_Nice slogRoot) (\<lambda>slogRoot'.
       Inr \<lparr>Name = name',
            UserName = userName',
            Root = root',
            SlogRoot = slogRoot',
            Environment = NewOpt Map.empty,
            AutoStart = NewOpt True,
            AutoRestart = NewOpt (AnyString ''unexpected''),
            StartRetries = NewOpt 3,
            StartSecs = NewOpt 1,
            LogMaxBytes = NewOpt ''50MB'',
            LogBackups = NewOpt 10,
            RedirectStderr = NewOpt False,
            StopAsGroup = NewOpt False,
            StopWaitSecs = NewOpt 10,
            KillAsGroup = NewOpt False,
            StopSignal = NewOpt ''TERM'',
            Priority = NewOpt 999,
            ExitCodes = NewOpt [0],
            NumProcs = NewOpt 1,
            ProcessName = NewOpt ''%(program_name)s''\<rparr>))))"

definition WithAutoStart :: "bool \<Rightarrow> ProgramConfig \<Rightarrow> ProgramConfig" where
  "WithAutoStart autoStart p = p\<lparr>AutoStart := Set_opt autoStart (AutoStart p)\<rparr>"

definition WithAutoRestart :: "bool \<Rightarrow> ProgramConfig \<Rightarrow> ProgramConfig" where
  "WithAutoRestart autoRestart p = p\<lparr>AutoRestart := Set_opt (AnyBool autoRestart) (AutoRestart p)\<rparr>"

definition WithAutoRestartMode :: "string \<Rightarrow> ProgramConfig \<Rightarrow> error + ProgramConfig" where
  "WithAutoRestartMode mode p =
     and_then (mustslice_In mode [''false'', ''true'', ''unexpected'']) (\<lambda>_.
       Inr (p\<lparr>AutoRestart := Set_opt (AnyString mode) (AutoRestart p)\<rparr>))"

definition WithStartRetries :: "int \<Rightarrow> ProgramConfig \<Rightarrow> ProgramConfig" where
  "WithStartRetries startRetries p = p\<lparr>StartRetries := Set_opt startRetries (StartRetries p)\<rparr>"

definition WithStartSecs :: "int \<Rightarrow> ProgramConfig \<Rightarrow> ProgramConfig" where
  "WithStartSecs startSecs p = p\<lparr>StartSecs := Set_opt startSecs (StartSecs p)\<rparr>"

definition WithLogMaxBytes :: "string \<Rightarrow> ProgramConfig \<Rightarrow> ProgramConfig" where
  "WithLogMaxBytes logMaxBytes p = p\<lparr>LogMaxBytes := Set_opt logMaxBytes (LogMaxBytes p)\<rparr>"

definition WithLogBackups :: "int \<Rightarrow> ProgramConfig \<Rightarrow> ProgramConfig" where
  "WithLogBackups logBackups p = p\<lparr>LogBackups := Set_opt logBackups (LogBackups p)\<rparr>"

definition WithRedirectStderr :: "bool \<Rightarrow> ProgramConfig \<Rightarrow> ProgramConfig" where
  "WithRedirectStderr redirectStderr p = p\<lparr>RedirectStderr := Set_opt redirectStderr (RedirectStderr p)\<rparr>"

definition WithStopAsGroup :: "bool \<Rightarrow> ProgramConfig \<Rightarrow> ProgramConfig" where
  "WithStopAsGroup stopAsGroup p = p\<lparr>StopAsGroup := Set_opt stopAsGroup (StopAsGroup p)\<rparr>"

definition WithKillAsGroup :: "bool \<Rightarrow> ProgramConfig \<Rightarrow> ProgramConfig" where
  "WithKillAsGroup killAsGroup p = p\<lparr>KillAsGroup := Set_opt killAsGroup (KillAsGroup p)\<rparr>"

definition WithStopWaitSecs :: "int \<Rightarrow> ProgramConfig \<Rightarrow> ProgramConfig" where
  "WithStopWaitSecs stopWaitSecs p = p\<lparr>StopWaitSecs := Set_opt stopWaitSecs (StopWaitSecs p)\<rparr>"

definition WithStopSignal :: "string \<Rightarrow> ProgramConfig \<Rightarrow> ProgramConfig" where
  "WithStopSignal stopSignal p = p\<lparr>StopSignal := Set_opt stopSignal (StopSignal p)\<rparr>"

definition WithPriority :: "int \<Rightarrow> ProgramConfig \<Rightarrow> ProgramConfig" where
  "WithPriority priority p = p\<lparr>Priority := Set_opt priority (Priority p)\<rparr>"

definition WithEnvironment :: "(string \<rightharpoonup> string) \<Rightarrow> ProgramConfig \<Rightarrow> ProgramConfig" where
  "WithEnvironment environment p = p\<lparr>Environment := Set_opt environment (Environment p)\<rparr>"

definition WithExitCodes :: "int list \<Rightarrow> ProgramConfig \<Rightarrow> ProgramConfig" where
  "WithExitCodes exitCodes p = p\<lparr>ExitCodes := Set_opt exitCodes (ExitCodes p)\<rparr>"

definition WithNumProcs :: "int \<Rightarrow> ProgramConfig \<Rightarrow> ProgramConfig" where
  "WithNumProcs numProcs p = p\<lparr>NumProcs := Set_opt numProcs (NumProcs p)\<rparr>"

definition WithProcessName :: "string \<Rightarrow> ProgramConfig \<Rightarrow> ProgramConfig" where
  "WithProcessName processName p = p\<lparr>ProcessName := Set_opt processName (ProcessName p)\<rparr>"


section \<open>Rendering one program\<close>

definition combineInts :: "int list \<Rightarrow> string \<Rightarrow> string" where
  "combineInts items sep =
     (if length items = 0 then []
      else strings_Join (map Itoa items) sep)"

text \<open>
  \<open>combineSsMap\<close> ranges over a Go map, and Go leaves the order of that iteration
  open: the runtime picks one at each \<open>range\<close> statement. The order picked is the
  argument \<open>kvs\<close>, the entries in the order the loop meets them; \<open>range_of\<close> says that
  \<open>kvs\<close> is an iteration over the map: each key once, with its value.
\<close>

definition range_of :: "(string \<rightharpoonup> string) \<Rightarrow> (string \<times> string) list \<Rightarrow> bool" where
  "range_of items kvs = (distinct (map fst kvs) \<and> map_of kvs = items)"

definition combineSsMap :: "(string \<times> string) list \<Rightarrow> (string \<rightharpoonup> string) \<Rightarrow> string \<Rightarrow> string" where
  "combineSsMap kvs items sep =
     (if items = Map.empty then []
      else strings_Join (map (\<lambda>(key, value). key @ ''='' @ value) kvs) sep)"

definition GenerateProgramConfig :: "(string \<times> string) list \<Rightarrow> ProgramConfig option \<Rightarrow> error + string" where
  "GenerateProgramConfig kvs program =
     and_then (must_Full program) (\<lambda>program.
     and_then (must_Nice (Name program)) (\<lambda>_.
     and_then (must_Nice (Root program)) (\<lambda>_.
     and_then (must_Nice (UserName program)) (\<lambda>_.
     and_then (must_Nice (SlogRoot program)) (\<lambda>_.
       let ptx = NewPTX;
           ptx = Println [''[program:'' @ Name program @ '']''] ptx;
           ptx = Println [''user            = '' @ UserName program] ptx;
           ptx = Println [''directory       = '' @ Root program] ptx;
           ptx = Println [''command         = '' @ filepath_Join [Root program, ''bin'', Name program]] ptx;
           ptx = (if IsSet (Environment program)
                  then (let env = combineSsMap kvs (Get (Environment program)) '','' in
                        if env \<noteq> [] then Println [''environment     = '' @ env] ptx else ptx)
                  else ptx);
           ptx = (if IsSet (AutoStart program)
                  then Println [''autostart       = '' @ FormatBool (Get (AutoStart program))] ptx
                  else ptx)
       in
       and_then
         (if IsSet (AutoRestart program)
          then (case Get (AutoRestart program) of
                  AnyBool v \<Rightarrow> Inr (Println [''autorestart     = '' @ FormatBool v] ptx)
                | AnyString v \<Rightarrow> Inr (Println [''autorestart     = '' @ v] ptx)
                | AnyOther \<Rightarrow> Inl ImpossibleInvalidType)
          else Inr ptx) (\<lambda>ptx.
       let ptx = (if IsSet (StartRetries program)
                  then Println [''startretries    = '' @ Itoa (Get (StartRetries program))] ptx
                  else ptx);
           ptx = (if IsSet (StartSecs program)
                  then Println [''startsecs       = '' @ Itoa (Get (StartSecs program))] ptx
                  else ptx);
           ptx = Println [''stdout_logfile  = '' @ filepath_Join [SlogRoot program, Name program @ ''.log'']] ptx;
           ptx = (if IsSet (LogMaxBytes program)
                  then Println [''stdout_logfile_maxbytes = '' @ Get (LogMaxBytes program)] ptx
                  else ptx);
           ptx = (if IsSet (LogBackups program)
                  then Println [''stdout_logfile_backups = '' @ Itoa (Get (LogBackups program))] ptx
                  else ptx);
           ptx = Println [''stderr_logfile  = '' @ filepath_Join [SlogRoot program, Name program @ ''.err'']] ptx;
           ptx = (if IsSet (LogMaxBytes program)
                  then Println [''stderr_logfile_maxbytes = '' @ Get (LogMaxBytes program)] ptx
                  else ptx);
           ptx = (if IsSet (LogBackups program)
                  then Println [''stderr_logfile_backups = '' @ Itoa (Get (LogBackups program))] ptx
                  else ptx);
           ptx = (if IsSet (RedirectStderr program)
                  then Println [''redirect_stderr = '' @ FormatBool (Get (RedirectStderr program))] ptx
                  else ptx);
           ptx = (if IsSet (StopAsGroup program)
                  then Println [''stopasgroup     = '' @ FormatBool (Get (StopAsGroup program))] ptx
                  else ptx);
           ptx = (if IsSet (StopWaitSecs program)
                  then Println [''stopwaitsecs    = '' @ Itoa (Get (StopWaitSecs program))] ptx
                  else ptx);
           ptx = (if IsSet (KillAsGroup program)
                  then Println [''killasgroup     = '' @ FormatBool (Get (KillAsGroup program))] ptx
                  else ptx);
           ptx = (if IsSet (StopSignal program)
                  then Println [''stopsignal      = '' @ Get (StopSignal program)] ptx
                  else ptx);
           ptx = (if IsSet (Priority program)
                  then Println [''priority        = '' @ Itoa (Get (Priority program))] ptx
                  else ptx);
           ptx = (if IsSet (ExitCodes program)
                  then Println [''exitcodes       = '' @ combineInts (Get (ExitCodes program)) '',''] ptx
                  else ptx);
           ptx = (if IsSet (NumProcs program)
                  then Println [''numprocs        = '' @ Itoa (Get (NumProcs program))] ptx
                  else ptx);
           ptx = (if IsSet (ProcessName program)
                  then Println [''process_name    = '' @ Get (ProcessName program)] ptx
                  else ptx)
       in Inr (String_ptx ptx)))))))"

section \<open>Group configuration\<close>

record GroupConfig =
  GroupName :: string
  Programs :: "ProgramConfig list"

definition NewGroupConfig :: "string \<Rightarrow> error + GroupConfig" where
  "NewGroupConfig name =
     and_then (must_Nice name) (\<lambda>name'. Inr \<lparr>GroupName = name', Programs = []\<rparr>)"

definition AddProgram :: "ProgramConfig \<Rightarrow> GroupConfig \<Rightarrow> GroupConfig" where
  "AddProgram program g = g\<lparr>Programs := Programs g @ [program]\<rparr>"

text \<open>
  The second loop of \<open>GenerateGroupConfig\<close>: a blank line, then the trimmed rendering
  of the program. The program at position \<open>i\<close> is rendered with the iteration order
  \<open>ord i\<close> of its environment map. A panic inside the loop leaves the function and the
  buffer is lost.
\<close>

fun group_loop :: "(nat \<Rightarrow> (string \<times> string) list) \<Rightarrow> nat \<Rightarrow> ProgramConfig list \<Rightarrow> PTX \<Rightarrow> error + PTX" where
  "group_loop ord i [] ptx = Inr ptx"
| "group_loop ord i (program # rest) ptx =
     (let ptx = Println [] ptx in
      and_then (GenerateProgramConfig (ord i) (Some program)) (\<lambda>cfs.
        group_loop ord (Suc i) rest (Println [TrimSpace cfs] ptx)))"

definition GenerateGroupConfig :: "(nat \<Rightarrow> (string \<times> string) list) \<Rightarrow> GroupConfig option \<Rightarrow> error + string" where
  "GenerateGroupConfig ord grp =
     and_then (must_Full grp) (\<lambda>grp.
     and_then (must_Nice (GroupName grp)) (\<lambda>_.
     and_then (must_Have (Programs grp)) (\<lambda>_.
       let ptx = NewPTX;
           ptx = Println [''[group:'' @ GroupName grp @ '']''] ptx;
           programs = foldl (\<lambda>programs p. programs @ [Name p]) [] (Programs grp);
           ptx = Println [''programs='' @ strings_Join programs '',''] ptx;
           ptx = Println [] ptx
       in and_then (group_loop ord 0 (Programs grp) ptx) (\<lambda>ptx.
            Inr (String_ptx ptx)))))"

section \<open>Setter calls\<close>

text \<open>
  A client builds a configuration by calling setters one after another on the result of
  \<open>NewProgramConfig\<close>. Each constructor below is one such call; \<open>apply_calls\<close> runs
  a chain of calls and stops at the first panic.
\<close>

datatype setter_call =
  CallWithAutoStart bool
| CallWithAutoRestart bool
| CallWithAutoRestartMode string
| CallWithStartRetries int
| CallWithStartSecs int
| CallWithLogMaxBytes string
| CallWithLogBackups int
| CallWithRedirectStderr bool
| CallWithStopAsGroup bool
| CallWithKillAsGroup bool
| CallWithStopWaitSecs int
| CallWithStopSignal string
| CallWithPriority int
| CallWithEnvironment "string \<rightharpoonup> string"
| CallWithExitCodes "int list"
| CallWithNumProcs int
| CallWithProcessName string

fun apply_call :: "setter_call \<Rightarrow> ProgramConfig \<Rightarrow> error + ProgramConfig" where
  "apply_call (CallWithAutoStart v) p = Inr (WithAutoStart v p)"
| "apply_call (CallWithAutoRestart v) p = Inr (WithAutoRestart v p)"
| "apply_call (CallWithAutoRestartMode v) p = WithAutoRestartMode v p"
| "apply_call (CallWithStartRetries v) p = Inr (WithStartRetries v p)"
| "apply_call (CallWithStartSecs v) p = Inr (WithStartSecs v p)"
| "apply_call (CallWithLogMaxBytes v) p = Inr (WithLogMaxBytes v p)"
| "apply_call (CallWithLogBackups v) p = Inr (WithLogBackups v p)"
| "apply_call (CallWithRedirectStderr v) p = Inr (WithRedirectStderr v p)"
| "apply_call (CallWithStopAsGroup v) p = Inr (WithStopAsGroup v p)"
| "apply_call (CallWithKillAsGroup v) p = Inr (WithKillAsGroup v p)"
| "apply_call (CallWithStopWaitSecs v) p = Inr (WithStopWaitSecs v p)"
| "apply_call (CallWithStopSignal v) p = Inr (WithStopSignal v p)"
| "apply_call (CallWithPriority v) p = Inr (WithPriority v p)"
| "apply_call (CallWithEnvironment v) p = Inr (WithEnvironment v p)"
| "apply_call (CallWithExitCodes v) p = Inr (WithExitCodes v p)"
| "apply_call (CallWithNumProcs v) p = Inr (WithNumProcs v p)"
| "apply_call (CallWithProcessName v) p = Inr (WithProcessName v p)"

fun apply_calls :: "setter_call list \<Rightarrow> ProgramConfig \<Rightarrow> error + ProgramConfig" where
  "apply_calls [] p = Inr p"
| "apply_calls (c # cs) p = and_then (apply_call c p) (apply_calls cs)"

text \<open>The sixteen optional fields, and the field each setter writes.\<close>

datatype field =
  FEnvironment | FAutoStart | FAutoRestart | FStartRetries | FStartSecs | FLogMaxBytes
| FLogBackups | FRedirectStderr | FStopAsGroup | FStopWaitSecs | FKillAsGroup | FStopSignal
| FPriority | FExitCodes | FNumProcs | FProcessName

fun call_field :: "setter_call \<Rightarrow> field" where
  "call_field (CallWithAutoStart v) = FAutoStart"
| "call_field (CallWithAutoRestart v) = FAutoRestart"
| "call_field (CallWithAutoRestartMode v) = FAutoRestart"
| "call_field (CallWithStartRetries v) = FStartRetries"
| "call_field (CallWithStartSecs v) = FStartSecs"
| "call_field (CallWithLogMaxBytes v) = FLogMaxBytes"
| "call_field (CallWithLogBackups v) = FLogBackups"
| "call_field (CallWithRedirectStderr v) = FRedirectStderr"
| "call_field (CallWithStopAsGroup v) = FStopAsGroup"
| "call_field (CallWithKillAsGroup v) = FKillAsGroup"
| "call_field (CallWithStopWaitSecs v) = FStopWaitSecs"
| "call_field (CallWithStopSignal v) = FStopSignal"
| "call_field (CallWithPriority v) = FPriority"
| "call_field (CallWithEnvironment v) = FEnvironment"
| "call_field (CallWithExitCodes v) = FExitCodes"
| "call_field (CallWithNumProcs v) = FNumProcs"
| "call_field (CallWithProcessName v) = FProcessName"

definition called :: "setter_call list \<Rightarrow> field \<Rightarrow> bool" where
  "called cs f = (f \<in> set (map call_field cs))"

fun field_set :: "ProgramConfig \<Rightarrow> field \<Rightarrow> bool" where
  "field_set p FEnvironment = IsSet (Environment p)"
| "field_set p FAutoStart = IsSet (AutoStart p)"
| "field_set p FAutoRestart = IsSet (AutoRestart p)"
| "field_set p FStartRetries = IsSet (StartRetries p)"
| "field_set p FStartSecs = IsSet (StartSecs p)"
| "field_set p FLogMaxBytes = IsSet (LogMaxBytes p)"
| "field_set p FLogBackups = IsSet (LogBackups p)"
| "field_set p FRedirectStderr = IsSet (RedirectStderr p)"
| "field_set p FStopAsGroup = IsSet (StopAsGroup p)"
| "field_set p FStopWaitSecs = IsSet (StopWaitSecs p)"
| "field_set p FKillAsGroup = IsSet (KillAsGroup p)"
| "field_set p FStopSignal = IsSet (StopSignal p)"
| "field_set p FPriority = IsSet (Priority p)"
| "field_set p FExitCodes = IsSet (ExitCodes p)"
| "field_set p FNumProcs = IsSet (NumProcs p)"
| "field_set p FProcessName = IsSet (ProcessName p)"

text \<open>
  The auto-restart value that a chain of calls leaves behind: the argument of the last
  call of \<open>WithAutoRestart\<close> or \<open>WithAutoRestartMode\<close>, if there is one.
\<close>

fun last_autorestart :: "setter_call list \<Rightarrow> any option" where
  "last_autorestart [] = None"
| "last_autorestart (c # cs) =
     (case last_autorestart cs of
        Some a \<Rightarrow> Some a
      | None \<Rightarrow> (case c of
                   CallWithAutoRestart b \<Rightarrow> Some (AnyBool b)
                 | CallWithAutoRestartMode m \<Rightarrow> Some (AnyString m)
                 | _ \<Rightarrow> None))"

section \<open>The line table of the renderer\<close>

text \<open>
  The specification of the single-program renderer lists twenty-four lines in a fixed
  order, each with the condition under which it is written. \<open>program_rows\<close> is that
  table for a configuration: a row is the condition and the text of the line, and
  \<open>emit\<close> decides the rows of the optional fields. \<open>rows_text\<close> is the text of a
  table: the lines whose condition holds, in the order of the table, each followed by a
  newline.
\<close>

definition rows_text :: "(bool \<times> string) list \<Rightarrow> string" where
  "rows_text rows = concat (map (\<lambda>(c, l). if c then l @ [CHR 0x0A] else []) rows)"

definition any_text :: "any \<Rightarrow> string" where
  "any_text a = (case a of AnyBool v \<Rightarrow> FormatBool v | AnyString v \<Rightarrow> v | AnyOther \<Rightarrow> [])"

definition program_rows :: "(field \<Rightarrow> bool) \<Rightarrow> (string \<times> string) list \<Rightarrow> ProgramConfig \<Rightarrow> (bool \<times> string) list" where
  "program_rows emit kvs p =
     [(True, ''[program:'' @ Name p @ '']''),
      (True, ''user            = '' @ UserName p),
      (True, ''directory       = '' @ Root p),
      (True, ''command         = '' @ filepath_Join [Root p, ''bin'', Name p]),
      (emit FEnvironment, ''environment     = '' @ combineSsMap kvs (Get (Environment p)) '',''),
      (emit FAutoStart, ''autostart       = '' @ FormatBool (Get (AutoStart p))),
      (emit FAutoRestart, ''autorestart     = '' @ any_text (Get (AutoRestart p))),
      (emit FStartRetries, ''startretries    = '' @ Itoa (Get (StartRetries p))),
      (emit FStartSecs, ''startsecs       = '' @ Itoa (Get (StartSecs p))),
      (True, ''stdout_logfile  = '' @ filepath_Join [SlogRoot p, Name p @ ''.log'']),
      (emit FLogMaxBytes, ''stdout_logfile_maxbytes = '' @ Get (LogMaxBytes p)),
      (emit FLogBackups, ''stdout_logfile_backups = '' @ Itoa (Get (LogBackups p))),
      (True, ''stderr_logfile  = '' @ filepath_Join [SlogRoot p, Name p @ ''.err'']),
      (emit FLogMaxBytes, ''stderr_logfile_maxbytes = '' @ Get (LogMaxBytes p)),
      (emit FLogBackups, ''stderr_logfile_backups = '' @ Itoa (Get (LogBackups p))),
      (emit FRedirectStderr, ''redirect_stderr = '' @ FormatBool (Get (RedirectStderr p))),
      (emit FStopAsGroup, ''stopasgroup     = '' @ FormatBool (Get (StopAsGroup p))),
      (emit FStopWaitSecs, ''stopwaitsecs    = '' @ Itoa (Get (StopWaitSecs p))),
      (emit FKillAsGroup, ''killasgroup     = '' @ FormatBool (Get (KillAsGroup p))),
      (emit FStopSignal, ''stopsignal      = '' @ Get (StopSignal p)),
      (emit FPriority, ''priority        = '' @ Itoa (Get (Priority p))),
      (emit FExitCodes, ''exitcodes       = '' @ combineInts (Get (ExitCodes p)) '',''),
      (emit FNumProcs, ''numprocs        = '' @ Itoa (Get (NumProcs p))),
      (emit FProcessName, ''process_name    = '' @ Get (ProcessName p))]"

text \<open>
  What the code emits: an optional row is written when its field is set, and the
  environment row needs a non-empty joined string as well.
\<close>

definition emitted :: "(string \<times> string) list \<Rightarrow> ProgramConfig \<Rightarrow> field \<Rightarrow> bool" where
  "emitted kvs p f =
     (field_set p f \<and> (f \<noteq> FEnvironment \<or> combineSsMap kvs (Get (Environment p)) '','' \<noteq> []))"

text \<open>
  A configuration that the renderer accepts: the four required strings are not empty and
  a set auto-restart value is a \<open>bool\<close> or a \<open>string\<close>.
\<close>

definition renderable :: "ProgramConfig \<Rightarrow> bool" where
  "renderable p =
     (Name p \<noteq> [] \<and> Root p \<noteq> [] \<and> UserName p \<noteq> [] \<and> SlogRoot p \<noteq> []
      \<and> \<not> (IsSet (AutoRestart p) \<and> Get (AutoRestart p) = AnyOther))"

section \<open>Blank strings\<close>

text \<open>
  In the ordinary sense a string is blank when it holds nothing but white space, the
  empty string included: nothing is left of it after trimming.
\<close>

definition blank :: "string \<Rightarrow> bool" where
  "blank s = (TrimSpace s = [])"

section \<open>Example configurations\<close>

text \<open>
  The configuration of the repository's test of default values, the configuration of its
  test of a single program with the calls that build it, a map with two keys, a group
  with one program, and a group whose only member lost its name through the
  exported field.
\<close>

definition basic_service :: ProgramConfig where
  "basic_service =
     projr (NewProgramConfig ''basic-service'' ''/opt/basic-service'' ''deploy'' ''/var/log/basic'')"

definition myapp_base :: ProgramConfig where
  "myapp_base = projr (NewProgramConfig ''myapp'' ''/opt/myapp'' ''deploy'' ''/var/log/myapp'')"

definition myapp_calls :: "setter_call list" where
  "myapp_calls = [CallWithStartRetries 10, CallWithEnvironment [''APP_ENV'' \<mapsto> ''production'']]"

definition myapp :: ProgramConfig where
  "myapp = projr (apply_calls myapp_calls myapp_base)"

definition restart_calls :: "setter_call list" where
  "restart_calls = [CallWithAutoRestartMode ''true'', CallWithAutoRestart False]"

definition restart_service :: ProgramConfig where
  "restart_service = projr (apply_calls restart_calls basic_service)"

definition two_keys :: "string \<rightharpoonup> string" where
  "two_keys = [''A'' \<mapsto> ''1'', ''B'' \<mapsto> ''2'']"

definition no_env_order :: "nat \<Rightarrow> (string \<times> string) list" where
  "no_env_order i = []"

definition one_member_group :: GroupConfig where
  "one_member_group = AddProgram basic_service (projr (NewGroupConfig ''services''))"

definition nameless_member_group :: GroupConfig where
  "nameless_member_group =
     AddProgram (basic_service\<lparr>Name := []\<rparr>) (projr (NewGroupConfig ''services''))"

section \<open>The text of a group\<close>

text \<open>
  \<open>group_text\<close> is the text the group renderer builds from the renderings \<open>texts\<close> of
  the members: the group line, the \<open>programs=\<close> line, one blank line, and then for each
  member a blank line and its trimmed rendering.

  \<open>enumerated_group_text\<close> follows the five steps of the specification's list word for
  word: one blank line, one additional blank line, and then for each member one more
  blank line before its trimmed rendering.
\<close>

definition group_text :: "string \<Rightarrow> string list \<Rightarrow> string list \<Rightarrow> string" where
  "group_text name names texts =
     ''[group:'' @ name @ '']'' @ [CHR 0x0A]
     @ ''programs='' @ strings_Join names '','' @ [CHR 0x0A]
     @ [CHR 0x0A]
     @ concat (map (\<lambda>t. [CHR 0x0A] @ TrimSpace t @ [CHR 0x0A]) texts)"

definition enumerated_group_text :: "string \<Rightarrow> string list \<Rightarrow> string list \<Rightarrow> string" where
  "enumerated_group_text name names texts =
     ''[group:'' @ name @ '']'' @ [CHR 0x0A]
     @ ''programs='' @ strings_Join names '','' @ [CHR 0x0A]
     @ [CHR 0x0A]
     @ [CHR 0x0A]
     @ concat (map (\<lambda>t. [CHR 0x0A] @ TrimSpace t @ [CHR 0x0A]) texts)"

section \<open>Properties of Opt\<close>

lemma opt_run_Nil [simp]: "opt_run [] sv = sv"
  by (simp add: opt_run_def)

lemma opt_run_Cons [simp]: "opt_run (c # cs) sv = opt_run cs (opt_step sv c)"
  by (simp add: opt_run_def)

lemma IsSet_opt_run: "IsSet (opt_run cs sv) = (IsSet sv \<or> set_args cs \<noteq> [])"
  by (induction cs arbitrary: sv rule: set_args.induct)
     (simp_all add: IsSet_def Set_opt_def)

lemma Get_opt_run: "Get (opt_run cs sv) = last (Get sv # set_args cs)"
  by (induction cs arbitrary: sv rule: set_args.induct)
     (simp_all add: Get_def Set_opt_def)

text \<open>
  C5. A freshly constructed \<open>Opt\<close> is not set; once \<open>Set\<close> has been called the flag
  stays true through every later sequence of method calls; and \<open>Get\<close> returns the last
  stored value: the default when no \<open>Set\<close> happened, otherwise the argument of the
  last \<open>Set\<close>, whatever the flag says.
\<close>

theorem Opt_set_flag_and_last_write:
  "IsSet (NewOpt d) = False
   \<and> IsSet (opt_run cs (Set_opt v sv)) = True
   \<and> IsSet (opt_run cs (NewOpt d)) = (set_args cs \<noteq> [])
   \<and> Get (opt_run cs (NewOpt d)) = last (d # set_args cs)
   \<and> Get (Set_opt v sv) = v
   \<and> Get (NewOpt d) = d"
  by (simp add: IsSet_opt_run Get_opt_run)
     (simp add: IsSet_def Get_def NewOpt_def Set_opt_def)

section \<open>The renderer writes the rows of the table\<close>

lemma buf_Println_if:
  "buf (if c then Println [s] ptx else ptx) = buf ptx @ (if c then s @ [CHR 0x0A] else [])"
  by (simp add: Println_def)

lemma buf_Println: "buf (Println [s] ptx) = buf ptx @ s @ [CHR 0x0A]"
  by (simp add: Println_def)

lemma buf_Println_Nil: "buf (Println [] ptx) = buf ptx @ [CHR 0x0A]"
  by (simp add: Println_def)

lemma buf_NewPTX: "buf NewPTX = []"
  by (simp add: NewPTX_def)

lemma if_if_same: "(if a then (if b then x else y) else y) = (if a \<and> b then x else y)"
  by simp

lemma and_then_Inr: "and_then (Inr x) f = f x"
  by (simp add: and_then_def)

lemma and_then_Inl: "and_then (Inl e) f = Inl e"
  by (simp add: and_then_def)

lemma rows_text_Cons:
  "rows_text ((c, l) # rows) = (if c then l @ [CHR 0x0A] else []) @ rows_text rows"
  by (simp add: rows_text_def)

lemma rows_text_Nil: "rows_text [] = []"
  by (simp add: rows_text_def)

lemma rows_text_append: "rows_text (xs @ ys) = rows_text xs @ rows_text ys"
  by (simp add: rows_text_def)

lemma emitted_simps:
  "emitted kvs p FEnvironment =
     (IsSet (Environment p) \<and> combineSsMap kvs (Get (Environment p)) '','' \<noteq> [])"
  "emitted kvs p FAutoStart = IsSet (AutoStart p)"
  "emitted kvs p FAutoRestart = IsSet (AutoRestart p)"
  "emitted kvs p FStartRetries = IsSet (StartRetries p)"
  "emitted kvs p FStartSecs = IsSet (StartSecs p)"
  "emitted kvs p FLogMaxBytes = IsSet (LogMaxBytes p)"
  "emitted kvs p FLogBackups = IsSet (LogBackups p)"
  "emitted kvs p FRedirectStderr = IsSet (RedirectStderr p)"
  "emitted kvs p FStopAsGroup = IsSet (StopAsGroup p)"
  "emitted kvs p FStopWaitSecs = IsSet (StopWaitSecs p)"
  "emitted kvs p FKillAsGroup = IsSet (KillAsGroup p)"
  "emitted kvs p FStopSignal = IsSet (StopSignal p)"
  "emitted kvs p FPriority = IsSet (Priority p)"
  "emitted kvs p FExitCodes = IsSet (ExitCodes p)"
  "emitted kvs p FNumProcs = IsSet (NumProcs p)"
  "emitted kvs p FProcessName = IsSet (ProcessName p)"
  by (simp_all add: emitted_def)

lemma GenerateProgramConfig_rows:
  assumes "renderable p"
  shows "GenerateProgramConfig kvs (Some p) = Inr (rows_text (program_rows (emitted kvs p) kvs p))"
proof -
  from assms have req: "must_Nice (Name p) = Inr (Name p)" "must_Nice (Root p) = Inr (Root p)"
    "must_Nice (UserName p) = Inr (UserName p)" "must_Nice (SlogRoot p) = Inr (SlogRoot p)"
    by (simp_all add: renderable_def must_Nice_def)
  have full: "must_Full (Some p) = Inr p"
    by (simp add: must_Full_def)
  have ar: "(if IsSet (AutoRestart p)
          then (case Get (AutoRestart p) of
                  AnyBool v \<Rightarrow> Inr (Println [''autorestart     = '' @ FormatBool v] ptx)
                | AnyString v \<Rightarrow> Inr (Println [''autorestart     = '' @ v] ptx)
                | AnyOther \<Rightarrow> Inl ImpossibleInvalidType)
          else Inr ptx)
        = Inr (if IsSet (AutoRestart p)
               then Println [''autorestart     = '' @ any_text (Get (AutoRestart p))] ptx
               else ptx)" for ptx
    using assms by (cases "Get (AutoRestart p)") (simp_all add: renderable_def any_text_def)
  show ?thesis
    unfolding GenerateProgramConfig_def program_rows_def
    by (simp only: full req ar and_then_Inr Let_def if_if_same buf_Println_if buf_Println
          buf_NewPTX String_ptx_def rows_text_Cons rows_text_Nil emitted_simps if_True
          append_Nil append_Nil2 append_assoc)
qed

lemma and_then_must_Nice:
  "and_then (must_Nice a) f = (if a = [] then Inl ZeroValuePanic else f a)"
  by (simp add: and_then_def must_Nice_def)

lemma and_then_weak_cong: "r = r' \<Longrightarrow> and_then r f = and_then r' f"
  by simp

lemma GenerateProgramConfig_fails:
  assumes "\<not> renderable p"
  shows "GenerateProgramConfig kvs (Some p) = Inl ZeroValuePanic
         \<or> GenerateProgramConfig kvs (Some p) = Inl ImpossibleInvalidType"
proof (cases "Name p = [] \<or> Root p = [] \<or> UserName p = [] \<or> SlogRoot p = []")
  case True
  have full: "must_Full (Some p) = Inr p"
    by (simp add: must_Full_def)
  from True have "GenerateProgramConfig kvs (Some p) = Inl ZeroValuePanic"
    unfolding GenerateProgramConfig_def
    by (elim disjE) (simp_all only: full and_then_Inr and_then_must_Nice if_True if_cancel simp_thms)
  then show ?thesis ..
next
  case False
  then have req: "must_Nice (Name p) = Inr (Name p)" "must_Nice (Root p) = Inr (Root p)"
    "must_Nice (UserName p) = Inr (UserName p)" "must_Nice (SlogRoot p) = Inr (SlogRoot p)"
    by (simp_all add: must_Nice_def)
  have full: "must_Full (Some p) = Inr p"
    by (simp add: must_Full_def)
  from False assms have "IsSet (AutoRestart p)" and "Get (AutoRestart p) = AnyOther"
    by (simp_all add: renderable_def)
  then have ar: "(if IsSet (AutoRestart p)
          then (case Get (AutoRestart p) of
                  AnyBool v \<Rightarrow> Inr (Println [''autorestart     = '' @ FormatBool v] ptx)
                | AnyString v \<Rightarrow> Inr (Println [''autorestart     = '' @ v] ptx)
                | AnyOther \<Rightarrow> Inl ImpossibleInvalidType)
          else Inr ptx) = Inl ImpossibleInvalidType" for ptx
    by simp
  have "GenerateProgramConfig kvs (Some p) = Inl ImpossibleInvalidType"
    unfolding GenerateProgramConfig_def
    by (simp only: full req ar and_then_Inr and_then_Inl Let_def cong: and_then_weak_cong)
  then show ?thesis ..
qed

lemma GenerateProgramConfig_ok_iff:
  "(\<exists>t. GenerateProgramConfig kvs (Some p) = Inr t) = renderable p"
proof (cases "renderable p")
  case True
  then show ?thesis using GenerateProgramConfig_rows [OF True, of kvs] by simp
next
  case False
  then show ?thesis using GenerateProgramConfig_fails [OF False, of kvs] by auto
qed

section \<open>Construction and setters\<close>

lemma NewProgramConfig_eq:
  "NewProgramConfig name root userName slogRoot =
     (if name = [] \<or> root = [] \<or> userName = [] \<or> slogRoot = [] then Inl ZeroValuePanic
      else Inr \<lparr>Name = name, UserName = userName, Root = root, SlogRoot = slogRoot,
            Environment = \<lparr>Value = Map.empty, isSet = False\<rparr>,
            AutoStart = \<lparr>Value = True, isSet = False\<rparr>,
            AutoRestart = \<lparr>Value = AnyString ''unexpected'', isSet = False\<rparr>,
            StartRetries = \<lparr>Value = 3, isSet = False\<rparr>,
            StartSecs = \<lparr>Value = 1, isSet = False\<rparr>,
            LogMaxBytes = \<lparr>Value = ''50MB'', isSet = False\<rparr>,
            LogBackups = \<lparr>Value = 10, isSet = False\<rparr>,
            RedirectStderr = \<lparr>Value = False, isSet = False\<rparr>,
            StopAsGroup = \<lparr>Value = False, isSet = False\<rparr>,
            StopWaitSecs = \<lparr>Value = 10, isSet = False\<rparr>,
            KillAsGroup = \<lparr>Value = False, isSet = False\<rparr>,
            StopSignal = \<lparr>Value = ''TERM'', isSet = False\<rparr>,
            Priority = \<lparr>Value = 999, isSet = False\<rparr>,
            ExitCodes = \<lparr>Value = [0], isSet = False\<rparr>,
            NumProcs = \<lparr>Value = 1, isSet = False\<rparr>,
            ProcessName = \<lparr>Value = ''%(program_name)s'', isSet = False\<rparr>\<rparr>)"
  unfolding NewProgramConfig_def NewOpt_def and_then_must_Nice
  by simp

lemma NewProgramConfig_fresh:
  assumes "NewProgramConfig name root userName slogRoot = Inr p"
  shows "Name p = name" and "Root p = root" and "UserName p = userName"
    and "SlogRoot p = slogRoot"
    and "name \<noteq> []" and "root \<noteq> []" and "userName \<noteq> []" and "slogRoot \<noteq> []"
    and "IsSet (AutoRestart p) = False" and "Get (AutoRestart p) = AnyString ''unexpected''"
    and "Get (Environment p) = Map.empty"
proof -
  from assms have nb: "\<not> (name = [] \<or> root = [] \<or> userName = [] \<or> slogRoot = [])"
    by (auto simp only: NewProgramConfig_eq split: if_splits)
  with assms show "Name p = name" and "Root p = root" and "UserName p = userName"
    and "SlogRoot p = slogRoot" and "IsSet (AutoRestart p) = False"
    and "Get (AutoRestart p) = AnyString ''unexpected''" and "Get (Environment p) = Map.empty"
    by (auto simp add: NewProgramConfig_eq IsSet_def Get_def)
  from nb show "name \<noteq> []" and "root \<noteq> []" and "userName \<noteq> []" and "slogRoot \<noteq> []"
    by simp_all
qed

lemma NewProgramConfig_unset:
  assumes "NewProgramConfig name root userName slogRoot = Inr p"
  shows "field_set p f = False"
proof -
  from assms have nb: "\<not> (name = [] \<or> root = [] \<or> userName = [] \<or> slogRoot = [])"
    by (auto simp only: NewProgramConfig_eq split: if_splits)
  with assms show ?thesis
    by (cases f) (auto simp add: NewProgramConfig_eq IsSet_def)
qed

lemmas setter_defs =
  WithAutoStart_def WithAutoRestart_def WithStartRetries_def WithStartSecs_def
  WithLogMaxBytes_def WithLogBackups_def WithRedirectStderr_def WithStopAsGroup_def
  WithKillAsGroup_def WithStopWaitSecs_def WithStopSignal_def WithPriority_def
  WithEnvironment_def WithExitCodes_def WithNumProcs_def WithProcessName_def

lemma WithAutoRestartMode_eq:
  "WithAutoRestartMode mode p =
     (if mode = ''false'' \<or> mode = ''true'' \<or> mode = ''unexpected''
      then Inr (p\<lparr>AutoRestart := \<lparr>Value = AnyString mode, isSet = True\<rparr>\<rparr>)
      else Inl NotInSlicePanic)"
  by (simp add: WithAutoRestartMode_def mustslice_In_def and_then_def Set_opt_def)

lemma apply_call_required:
  assumes "apply_call c p = Inr p'"
  shows "Name p' = Name p \<and> Root p' = Root p \<and> UserName p' = UserName p \<and> SlogRoot p' = SlogRoot p"
  using assms
  by (cases c) (auto simp add: setter_defs WithAutoRestartMode_eq split: if_splits)

lemma apply_call_field_set:
  assumes "apply_call c p = Inr p'"
  shows "field_set p' f = (field_set p f \<or> f = call_field c)"
  using assms
  by (cases c; cases f)
     (auto simp add: setter_defs WithAutoRestartMode_eq IsSet_def Set_opt_def split: if_splits)

lemma apply_call_autorestart:
  assumes "apply_call c p = Inr p'"
  shows "Get (AutoRestart p') =
           (case c of CallWithAutoRestart b \<Rightarrow> AnyBool b
                    | CallWithAutoRestartMode m \<Rightarrow> AnyString m
                    | _ \<Rightarrow> Get (AutoRestart p))"
  using assms
  by (cases c) (auto simp add: setter_defs WithAutoRestartMode_eq Get_def Set_opt_def split: if_splits)

lemma apply_call_environment:
  assumes "apply_call c p = Inr p'"
  shows "Get (Environment p') =
           (case c of CallWithEnvironment m \<Rightarrow> m | _ \<Rightarrow> Get (Environment p))"
  using assms
  by (cases c) (auto simp add: setter_defs WithAutoRestartMode_eq Get_def Set_opt_def split: if_splits)

lemma apply_calls_Cons_Inr:
  assumes "apply_calls (c # cs) p = Inr p'"
  obtains p1 where "apply_call c p = Inr p1" and "apply_calls cs p1 = Inr p'"
  using assms by (cases "apply_call c p") (simp_all add: and_then_def)

lemma apply_calls_required:
  assumes "apply_calls cs p = Inr p'"
  shows "Name p' = Name p \<and> Root p' = Root p \<and> UserName p' = UserName p \<and> SlogRoot p' = SlogRoot p"
  using assms
proof (induction cs arbitrary: p)
  case Nil
  then show ?case by simp
next
  case (Cons c cs)
  from Cons.prems obtain p1 where 1: "apply_call c p = Inr p1" and 2: "apply_calls cs p1 = Inr p'"
    by (rule apply_calls_Cons_Inr)
  from Cons.IH [OF 2] apply_call_required [OF 1] show ?case by simp
qed

lemma apply_calls_field_set:
  assumes "apply_calls cs p = Inr p'"
  shows "field_set p' f = (field_set p f \<or> called cs f)"
  using assms
proof (induction cs arbitrary: p)
  case Nil
  then show ?case by (simp add: called_def)
next
  case (Cons c cs)
  from Cons.prems obtain p1 where 1: "apply_call c p = Inr p1" and 2: "apply_calls cs p1 = Inr p'"
    by (rule apply_calls_Cons_Inr)
  from Cons.IH [OF 2] apply_call_field_set [OF 1, of f] show ?case
    by (auto simp add: called_def)
qed

lemma last_autorestart_None: "(last_autorestart cs = None) = (\<not> called cs FAutoRestart)"
proof (induction cs)
  case Nil
  then show ?case by (simp add: called_def)
next
  case (Cons c cs)
  then show ?case by (cases c) (auto simp add: called_def split: option.splits)
qed

lemma last_autorestart_not_other: "last_autorestart cs \<noteq> Some AnyOther"
proof (induction cs)
  case Nil
  then show ?case by simp
next
  case (Cons c cs)
  then show ?case by (cases c) (auto split: option.splits)
qed

lemma apply_calls_autorestart:
  assumes "apply_calls cs p = Inr p'"
  shows "Get (AutoRestart p') =
           (case last_autorestart cs of None \<Rightarrow> Get (AutoRestart p) | Some a \<Rightarrow> a)"
  using assms
proof (induction cs arbitrary: p)
  case Nil
  then show ?case by simp
next
  case (Cons c cs)
  from Cons.prems obtain p1 where 1: "apply_call c p = Inr p1" and 2: "apply_calls cs p1 = Inr p'"
    by (rule apply_calls_Cons_Inr)
  from Cons.IH [OF 2] apply_call_autorestart [OF 1] show ?case
    by (cases c) (auto split: option.splits)
qed

lemma strings_Join_nonempty: "x \<noteq> [] \<Longrightarrow> strings_Join (x # xs) sep \<noteq> []"
  by (cases xs) simp_all

lemma combineSsMap_empty_iff:
  assumes "range_of items kvs"
  shows "(combineSsMap kvs items sep = []) = (items = Map.empty)"
proof (cases kvs)
  case Nil
  with assms show ?thesis by (simp add: range_of_def combineSsMap_def)
next
  case (Cons kv rest)
  obtain k v where kv: "kv = (k, v)" by (cases kv)
  from assms Cons kv have "items k = Some v" by (auto simp add: range_of_def)
  then have ne: "items \<noteq> Map.empty" by auto
  have "strings_Join (map (\<lambda>(key, value). key @ ''='' @ value) kvs) sep \<noteq> []"
    unfolding Cons kv by (simp add: strings_Join_nonempty)
  with ne show ?thesis by (simp add: combineSsMap_def)
qed

lemma built_renderable:
  assumes "NewProgramConfig name root userName slogRoot = Inr p0"
    and "apply_calls cs p0 = Inr p"
  shows "renderable p"
proof -
  from apply_calls_required [OF assms(2)] NewProgramConfig_fresh [OF assms(1)]
  have req: "Name p \<noteq> []" "Root p \<noteq> []" "UserName p \<noteq> []" "SlogRoot p \<noteq> []"
    by simp_all
  from apply_calls_autorestart [OF assms(2)] NewProgramConfig_fresh(10) [OF assms(1)]
    last_autorestart_not_other [of cs]
  have "Get (AutoRestart p) \<noteq> AnyOther"
    by (auto split: option.splits)
  with req show ?thesis by (simp add: renderable_def)
qed

lemma basic_service_eq:
  "NewProgramConfig ''basic-service'' ''/opt/basic-service'' ''deploy'' ''/var/log/basic'' = Inr basic_service"
  by (simp add: basic_service_def NewProgramConfig_eq)

section \<open>Claims about construction and the single-program renderer\<close>

text \<open>
  C6, as amended. The constructor panics (a validation error) exactly when one of the
  four required strings is empty, the zero value that \<open>must.Nice\<close> tests; a string of
  white space only is accepted like any other non-empty string. When all four strings
  are non-empty it returns a configuration that stores the four values.
\<close>

theorem NewProgramConfig_requires_nonempty:
  "(name = [] \<or> root = [] \<or> userName = [] \<or> slogRoot = [] \<longrightarrow>
      NewProgramConfig name root userName slogRoot = Inl ZeroValuePanic)
   \<and> (name \<noteq> [] \<and> root \<noteq> [] \<and> userName \<noteq> [] \<and> slogRoot \<noteq> [] \<longrightarrow>
      (\<exists>p. NewProgramConfig name root userName slogRoot = Inr p
         \<and> Name p = name \<and> Root p = root \<and> UserName p = userName \<and> SlogRoot p = slogRoot))"
  by (simp add: NewProgramConfig_eq)

theorem NewProgramConfig_requires_nonempty_witness:
  "NewProgramConfig ''basic-service'' [] ''deploy'' ''/var/log/basic'' = Inl ZeroValuePanic
   \<and> (\<exists>p. NewProgramConfig ''basic-service'' ''/opt/basic-service'' ''deploy'' ''/var/log/basic'' = Inr p
         \<and> Name p = ''basic-service'' \<and> Root p = ''/opt/basic-service''
         \<and> UserName p = ''deploy'' \<and> SlogRoot p = ''/var/log/basic'')"
  using NewProgramConfig_requires_nonempty [of "''basic-service''" "[]" "''deploy''" "''/var/log/basic''"]
    NewProgramConfig_requires_nonempty [of "''basic-service''" "''/opt/basic-service''" "''deploy''" "''/var/log/basic''"]
  by simp

text \<open>
  The claim as stated fails: four strings of white space only are blank, and the
  constructor accepts them.
\<close>

theorem NewProgramConfig_accepts_whitespace:
  "blank '' '' \<and> blank [CHR 0x09] \<and> blank [CHR 0x0A]
   \<and> \<not> isl (NewProgramConfig '' '' [CHR 0x09] '' '' [CHR 0x0A])"
  by (simp add: blank_def TrimSpace_def ascii_space_def NewProgramConfig_eq)

text \<open>
  C2. A configuration built from four non-blank strings, with no setter called, renders
  to exactly six lines: the header and the \<open>user\<close>, \<open>directory\<close>, \<open>command\<close>,
  \<open>stdout_logfile\<close> and \<open>stderr_logfile\<close> lines, each ended by a newline. None of
  the sixteen default values shows.
\<close>

theorem zero_config_six_lines:
  assumes "name \<noteq> []" and "root \<noteq> []" and "userName \<noteq> []" and "slogRoot \<noteq> []"
  shows "and_then (NewProgramConfig name root userName slogRoot)
           (\<lambda>p. GenerateProgramConfig kvs (Some p)) =
         Inr (concat (map (\<lambda>l. l @ [CHR 0x0A])
           [''[program:'' @ name @ '']'',
            ''user            = '' @ userName,
            ''directory       = '' @ root,
            ''command         = '' @ filepath_Join [root, ''bin'', name],
            ''stdout_logfile  = '' @ filepath_Join [slogRoot, name @ ''.log''],
            ''stderr_logfile  = '' @ filepath_Join [slogRoot, name @ ''.err'']]))"
proof -
  from assms obtain p where p: "NewProgramConfig name root userName slogRoot = Inr p"
    by (simp add: NewProgramConfig_eq)
  have "apply_calls [] p = Inr p" by simp
  with p have r: "renderable p" by (rule built_renderable)
  have unset: "emitted kvs p f = False" for f
    using NewProgramConfig_unset [OF p, of f] by (simp add: emitted_def)
  show ?thesis
    unfolding p and_then_Inr GenerateProgramConfig_rows [OF r] program_rows_def
    by (simp add: unset rows_text_Cons rows_text_Nil NewProgramConfig_fresh [OF p])
qed

theorem zero_config_six_lines_witness:
  "''basic-service'' \<noteq> [] \<and> ''/opt/basic-service'' \<noteq> [] \<and> ''deploy'' \<noteq> [] \<and> ''/var/log/basic'' \<noteq> []
   \<and> GenerateProgramConfig [] (Some basic_service) =
       Inr ''[program:basic-service]\<newline>user            = deploy\<newline>directory       = /opt/basic-service\<newline>command         = /opt/basic-service/bin/basic-service\<newline>stdout_logfile  = /var/log/basic/basic-service.log\<newline>stderr_logfile  = /var/log/basic/basic-service.err\<newline>''"
  using zero_config_six_lines [of "''basic-service''" "''/opt/basic-service''" "''deploy''" "''/var/log/basic''" "[]"]
  by (simp add: basic_service_eq and_then_Inr filepath_Join_def Clean_def)

text \<open>
  C7. \<open>WithAutoRestartMode\<close> panics (a validation error) exactly when its argument is
  none of \<open>false\<close>, \<open>true\<close>, \<open>unexpected\<close>; otherwise it stores the string in the
  auto-restart field, marks the field set and returns the configuration with nothing
  else changed. It is the only setter call that can fail.
\<close>

theorem WithAutoRestartMode_validates:
  "WithAutoRestartMode mode p =
     (if mode = ''false'' \<or> mode = ''true'' \<or> mode = ''unexpected''
      then Inr (p\<lparr>AutoRestart := \<lparr>Value = AnyString mode, isSet = True\<rparr>\<rparr>)
      else Inl NotInSlicePanic)
   \<and> ((\<exists>e. apply_call c p = Inl e) =
        (\<exists>m. c = CallWithAutoRestartMode m \<and> m \<noteq> ''false'' \<and> m \<noteq> ''true'' \<and> m \<noteq> ''unexpected''))"
proof -
  have "(\<exists>e. apply_call c p = Inl e) =
        (\<exists>m. c = CallWithAutoRestartMode m \<and> m \<noteq> ''false'' \<and> m \<noteq> ''true'' \<and> m \<noteq> ''unexpected'')"
    by (cases c) (simp_all add: WithAutoRestartMode_eq)
  then show ?thesis by (simp only: WithAutoRestartMode_eq simp_thms)
qed

theorem WithAutoRestartMode_validates_witness:
  "WithAutoRestartMode ''always'' basic_service = Inl NotInSlicePanic
   \<and> WithAutoRestartMode ''true'' basic_service =
       Inr (basic_service\<lparr>AutoRestart := \<lparr>Value = AnyString ''true'', isSet = True\<rparr>\<rparr>)
   \<and> (\<exists>e. apply_call (CallWithAutoRestartMode ''always'') basic_service = Inl e)
   \<and> \<not> (\<exists>e. apply_call (CallWithStopSignal ''always'') basic_service = Inl e)"
  using WithAutoRestartMode_validates [of "''always''" basic_service "CallWithAutoRestartMode ''always''"]
    WithAutoRestartMode_validates [of "''true''" basic_service "CallWithStopSignal ''always''"]
  by simp

text \<open>
  C1, as amended. For a configuration built by the constructor and any chain of setter
  calls, the rendered text is the table of section 4.3 restricted to its unconditional
  rows and the rows of the fields whose setter was called, in the order of the table;
  the environment row is written only when, in addition, the map is not empty.
  Here \<open>kvs\<close> is any order in which the runtime iterates over the environment map.
\<close>

theorem setters_decide_lines:
  assumes "NewProgramConfig name root userName slogRoot = Inr p0"
    and "apply_calls cs p0 = Inr p"
    and "range_of (Get (Environment p)) kvs"
  shows "GenerateProgramConfig kvs (Some p) =
           Inr (rows_text (program_rows
                  (\<lambda>f. called cs f \<and> (f \<noteq> FEnvironment \<or> Get (Environment p) \<noteq> Map.empty))
                  kvs p))"
proof -
  have r: "renderable p" using assms(1,2) by (rule built_renderable)
  have "emitted kvs p f = (called cs f \<and> (f \<noteq> FEnvironment \<or> Get (Environment p) \<noteq> Map.empty))" for f
    using apply_calls_field_set [OF assms(2), of f] NewProgramConfig_unset [OF assms(1), of f]
      combineSsMap_empty_iff [OF assms(3), of "'',''"]
    by (auto simp add: emitted_def)
  then have "emitted kvs p = (\<lambda>f. called cs f \<and> (f \<noteq> FEnvironment \<or> Get (Environment p) \<noteq> Map.empty))"
    by (rule ext)
  with GenerateProgramConfig_rows [OF r, of kvs] show ?thesis by simp
qed

lemma myapp_base_eq:
  "NewProgramConfig ''myapp'' ''/opt/myapp'' ''deploy'' ''/var/log/myapp'' = Inr myapp_base"
  by (simp add: myapp_base_def NewProgramConfig_eq)

lemma myapp_eq: "apply_calls myapp_calls myapp_base = Inr myapp"
  by (simp add: myapp_def myapp_calls_def and_then_Inr)

lemma myapp_range: "range_of (Get (Environment myapp)) [(''APP_ENV'', ''production'')]"
  by (simp add: myapp_def myapp_calls_def and_then_Inr range_of_def setter_defs Get_def Set_opt_def)

theorem setters_decide_lines_witness:
  "NewProgramConfig ''myapp'' ''/opt/myapp'' ''deploy'' ''/var/log/myapp'' = Inr myapp_base
   \<and> apply_calls myapp_calls myapp_base = Inr myapp
   \<and> range_of (Get (Environment myapp)) [(''APP_ENV'', ''production'')]
   \<and> GenerateProgramConfig [(''APP_ENV'', ''production'')] (Some myapp) =
       Inr ''[program:myapp]\<newline>user            = deploy\<newline>directory       = /opt/myapp\<newline>command         = /opt/myapp/bin/myapp\<newline>environment     = APP_ENV=production\<newline>startretries    = 10\<newline>stdout_logfile  = /var/log/myapp/myapp.log\<newline>stderr_logfile  = /var/log/myapp/myapp.err\<newline>''"
proof -
  have fields: "Name myapp = ''myapp''" "Root myapp = ''/opt/myapp''" "UserName myapp = ''deploy''"
    "SlogRoot myapp = ''/var/log/myapp''" "Get (StartRetries myapp) = 10"
    "Get (Environment myapp) = [''APP_ENV'' \<mapsto> ''production'']"
    by (simp_all add: myapp_def myapp_calls_def and_then_Inr setter_defs Get_def Set_opt_def
          myapp_base_def NewProgramConfig_eq)
  have called: "called myapp_calls f = (f = FStartRetries \<or> f = FEnvironment)" for f
    by (auto simp add: called_def myapp_calls_def)
  from setters_decide_lines [OF myapp_base_eq myapp_eq myapp_range]
  have "GenerateProgramConfig [(''APP_ENV'', ''production'')] (Some myapp) =
       Inr ''[program:myapp]\<newline>user            = deploy\<newline>directory       = /opt/myapp\<newline>command         = /opt/myapp/bin/myapp\<newline>environment     = APP_ENV=production\<newline>startretries    = 10\<newline>stdout_logfile  = /var/log/myapp/myapp.log\<newline>stderr_logfile  = /var/log/myapp/myapp.err\<newline>''"
    by (simp add: program_rows_def rows_text_Cons rows_text_Nil called fields
          combineSsMap_def filepath_Join_def Clean_def Itoa_def digit_def)
  with myapp_base_eq myapp_eq myapp_range show ?thesis by simp
qed

text \<open>
  The claim as stated fails for \<open>WithEnvironment\<close> with an empty map: the setter was
  called, yet the rendered text is the six lines of the untouched configuration and not
  the text with an environment row.
\<close>

theorem empty_environment_counterexample:
  "apply_calls [CallWithEnvironment Map.empty] basic_service = Inr (WithEnvironment Map.empty basic_service)
   \<and> called [CallWithEnvironment Map.empty] FEnvironment
   \<and> range_of (Get (Environment (WithEnvironment Map.empty basic_service))) []
   \<and> GenerateProgramConfig [] (Some (WithEnvironment Map.empty basic_service)) =
       Inr ''[program:basic-service]\<newline>user            = deploy\<newline>directory       = /opt/basic-service\<newline>command         = /opt/basic-service/bin/basic-service\<newline>stdout_logfile  = /var/log/basic/basic-service.log\<newline>stderr_logfile  = /var/log/basic/basic-service.err\<newline>''
   \<and> GenerateProgramConfig [] (Some (WithEnvironment Map.empty basic_service)) \<noteq>
       Inr (rows_text (program_rows (called [CallWithEnvironment Map.empty]) []
              (WithEnvironment Map.empty basic_service)))"
proof -
  let ?p = "WithEnvironment Map.empty basic_service"
  have r: "renderable ?p"
    by (simp add: renderable_def WithEnvironment_def basic_service_def NewProgramConfig_eq IsSet_def)
  have fields: "Name ?p = ''basic-service''" "Root ?p = ''/opt/basic-service''"
    "UserName ?p = ''deploy''" "SlogRoot ?p = ''/var/log/basic''"
    "Get (Environment ?p) = Map.empty"
    by (simp_all add: WithEnvironment_def basic_service_def NewProgramConfig_eq Get_def Set_opt_def)
  have em: "emitted [] ?p f = False" for f
    by (cases f)
       (simp_all add: emitted_def fields combineSsMap_def WithEnvironment_def basic_service_def
          NewProgramConfig_eq IsSet_def)
  have called: "called [CallWithEnvironment Map.empty] f = (f = FEnvironment)" for f
    by (auto simp add: called_def)
  have out: "GenerateProgramConfig [] (Some ?p) =
       Inr ''[program:basic-service]\<newline>user            = deploy\<newline>directory       = /opt/basic-service\<newline>command         = /opt/basic-service/bin/basic-service\<newline>stdout_logfile  = /var/log/basic/basic-service.log\<newline>stderr_logfile  = /var/log/basic/basic-service.err\<newline>''"
    unfolding GenerateProgramConfig_rows [OF r]
    by (simp add: program_rows_def rows_text_Cons rows_text_Nil em fields filepath_Join_def Clean_def)
  have differs: "GenerateProgramConfig [] (Some ?p) \<noteq>
       Inr (rows_text (program_rows (called [CallWithEnvironment Map.empty]) [] ?p))"
    unfolding out
    by (simp add: program_rows_def rows_text_Cons rows_text_Nil called fields combineSsMap_def
          filepath_Join_def Clean_def)
  from out differs show ?thesis
    by (simp add: called fields range_of_def and_then_Inr)
qed

lemma program_rows_length: "length (program_rows emit kvs p) = 24"
  by (simp add: program_rows_def)

lemma rows_text_split:
  assumes "i < length rows"
  shows "rows_text rows =
           rows_text (take i rows) @ rows_text [rows ! i] @ rows_text (drop (Suc i) rows)"
proof -
  from assms have "rows = take i rows @ [rows ! i] @ drop (Suc i) rows"
    by (simp add: id_take_nth_drop [symmetric])
  then have "rows_text rows = rows_text (take i rows @ [rows ! i] @ drop (Suc i) rows)"
    by simp
  then show ?thesis by (simp only: rows_text_append)
qed

lemma basic_service_fields:
  "Name basic_service = ''basic-service''" "Root basic_service = ''/opt/basic-service''"
  "UserName basic_service = ''deploy''" "SlogRoot basic_service = ''/var/log/basic''"
  by (simp_all add: basic_service_def NewProgramConfig_eq)

lemma basic_service_unset: "field_set basic_service f = False"
  using basic_service_eq by (rule NewProgramConfig_unset)

text \<open>
  C8. For a configuration built by the constructor and setter calls, the renderer never
  reaches the fatal branch of the type switch on the auto-restart value; and the text has,
  between the rows before and after it in the table, no auto-restart line when neither
  \<open>WithAutoRestart\<close> nor \<open>WithAutoRestartMode\<close> was called, and otherwise the line
  with the literal of the boolean or the raw mode string of the last such call.
\<close>

theorem autorestart_line_from_setters:
  assumes "NewProgramConfig name root userName slogRoot = Inr p0"
    and "apply_calls cs p0 = Inr p"
  shows "GenerateProgramConfig kvs (Some p) \<noteq> Inl ImpossibleInvalidType
     \<and> GenerateProgramConfig kvs (Some p) =
        Inr (rows_text (take 6 (program_rows (emitted kvs p) kvs p))
             @ (case last_autorestart cs of
                  None \<Rightarrow> []
                | Some (AnyBool b) \<Rightarrow> ''autorestart     = '' @ FormatBool b @ [CHR 0x0A]
                | Some (AnyString m) \<Rightarrow> ''autorestart     = '' @ m @ [CHR 0x0A]
                | Some AnyOther \<Rightarrow> [])
             @ rows_text (drop 7 (program_rows (emitted kvs p) kvs p)))"
proof -
  let ?rows = "program_rows (emitted kvs p) kvs p"
  have r: "renderable p" using assms by (rule built_renderable)
  have set_iff: "IsSet (AutoRestart p) = (last_autorestart cs \<noteq> None)"
    using apply_calls_field_set [OF assms(2), of FAutoRestart]
      NewProgramConfig_unset [OF assms(1), of FAutoRestart] last_autorestart_None [of cs]
    by simp
  have val: "Get (AutoRestart p) =
               (case last_autorestart cs of None \<Rightarrow> Get (AutoRestart p0) | Some a \<Rightarrow> a)"
    using assms(2) by (rule apply_calls_autorestart)
  have row: "?rows ! 6 =
               (IsSet (AutoRestart p), ''autorestart     = '' @ any_text (Get (AutoRestart p)))"
    by (simp add: program_rows_def emitted_simps)
  have mid: "rows_text [?rows ! 6] =
               (case last_autorestart cs of
                  None \<Rightarrow> []
                | Some (AnyBool b) \<Rightarrow> ''autorestart     = '' @ FormatBool b @ [CHR 0x0A]
                | Some (AnyString m) \<Rightarrow> ''autorestart     = '' @ m @ [CHR 0x0A]
                | Some AnyOther \<Rightarrow> [])"
    unfolding row using last_autorestart_not_other [of cs]
    by (simp add: rows_text_Cons rows_text_Nil set_iff val any_text_def
          split: option.splits any.splits)
  have "rows_text ?rows =
          rows_text (take 6 ?rows) @ rows_text [?rows ! 6] @ rows_text (drop (Suc 6) ?rows)"
    by (rule rows_text_split) (simp add: program_rows_length)
  then have "rows_text ?rows = rows_text (take 6 ?rows) @ rows_text [?rows ! 6] @ rows_text (drop 7 ?rows)"
    by simp
  with GenerateProgramConfig_rows [OF r, of kvs] mid show ?thesis by simp
qed

lemma restart_service_eq: "apply_calls restart_calls basic_service = Inr restart_service"
  by (simp add: restart_service_def restart_calls_def and_then_Inr WithAutoRestartMode_eq)

theorem autorestart_line_from_setters_witness:
  "NewProgramConfig ''basic-service'' ''/opt/basic-service'' ''deploy'' ''/var/log/basic'' = Inr basic_service
   \<and> apply_calls restart_calls basic_service = Inr restart_service
   \<and> GenerateProgramConfig [] (Some restart_service) =
       Inr ''[program:basic-service]\<newline>user            = deploy\<newline>directory       = /opt/basic-service\<newline>command         = /opt/basic-service/bin/basic-service\<newline>autorestart     = false\<newline>stdout_logfile  = /var/log/basic/basic-service.log\<newline>stderr_logfile  = /var/log/basic/basic-service.err\<newline>''"
proof -
  have req: "Name restart_service = ''basic-service''" "Root restart_service = ''/opt/basic-service''"
    "UserName restart_service = ''deploy''" "SlogRoot restart_service = ''/var/log/basic''"
    using apply_calls_required [OF restart_service_eq] by (simp_all add: basic_service_fields)
  have em: "emitted [] restart_service f = (f = FAutoRestart)" for f
    using apply_calls_field_set [OF restart_service_eq, of f] basic_service_unset [of f]
    by (cases f) (auto simp add: emitted_def called_def restart_calls_def)
  from autorestart_line_from_setters [OF basic_service_eq restart_service_eq, of "[]"]
  have "GenerateProgramConfig [] (Some restart_service) =
       Inr ''[program:basic-service]\<newline>user            = deploy\<newline>directory       = /opt/basic-service\<newline>command         = /opt/basic-service/bin/basic-service\<newline>autorestart     = false\<newline>stdout_logfile  = /var/log/basic/basic-service.log\<newline>stderr_logfile  = /var/log/basic/basic-service.err\<newline>''"
    by (simp add: program_rows_def rows_text_Cons rows_text_Nil em req restart_calls_def
          FormatBool_def filepath_Join_def Clean_def)
  with basic_service_eq restart_service_eq show ?thesis by simp
qed

text \<open>
  C10. After \<open>WithExitCodes\<close> with an empty list the renderer still writes the
  \<open>exitcodes\<close> line, with nothing after the equals sign and its blank: the text is the
  rows of the configuration before and after that row with this line between them. After
  \<open>WithEnvironment\<close> with an empty map it writes no environment line: the text is the
  rows before and after the environment row and nothing between them.
\<close>

theorem empty_exit_codes_and_empty_environment:
  assumes "renderable p"
  shows "GenerateProgramConfig kvs (Some (WithExitCodes [] p)) =
           Inr (rows_text (take 21 (program_rows (emitted kvs p) kvs p))
                @ ''exitcodes       = '' @ [CHR 0x0A]
                @ rows_text (drop 22 (program_rows (emitted kvs p) kvs p)))
       \<and> GenerateProgramConfig kvs (Some (WithEnvironment Map.empty p)) =
           Inr (rows_text (take 4 (program_rows (emitted kvs p) kvs p))
                @ rows_text (drop 5 (program_rows (emitted kvs p) kvs p)))"
proof -
  let ?rows = "program_rows (emitted kvs p) kvs p"
  let ?p1 = "WithExitCodes [] p"
  let ?rows1 = "program_rows (emitted kvs ?p1) kvs ?p1"
  let ?p2 = "WithEnvironment Map.empty p"
  let ?rows2 = "program_rows (emitted kvs ?p2) kvs ?p2"
  from assms have r1: "renderable ?p1" and r2: "renderable ?p2"
    by (simp_all add: renderable_def WithExitCodes_def WithEnvironment_def)
  have "rows_text ?rows1 =
          rows_text (take 21 ?rows1) @ rows_text [?rows1 ! 21] @ rows_text (drop (Suc 21) ?rows1)"
    by (rule rows_text_split) (simp add: program_rows_length)
  moreover have "take 21 ?rows1 = take 21 ?rows" and "drop (Suc 21) ?rows1 = drop 22 ?rows"
    by (simp_all add: program_rows_def emitted_simps WithExitCodes_def)
  moreover have "rows_text [?rows1 ! 21] = ''exitcodes       = '' @ [CHR 0x0A]"
    by (simp add: program_rows_def emitted_simps WithExitCodes_def rows_text_Cons rows_text_Nil
          IsSet_def Get_def Set_opt_def combineInts_def)
  ultimately have a: "rows_text ?rows1 =
          rows_text (take 21 ?rows) @ ''exitcodes       = '' @ [CHR 0x0A] @ rows_text (drop 22 ?rows)"
    by simp
  have "rows_text ?rows2 =
          rows_text (take 4 ?rows2) @ rows_text [?rows2 ! 4] @ rows_text (drop (Suc 4) ?rows2)"
    by (rule rows_text_split) (simp add: program_rows_length)
  moreover have "take 4 ?rows2 = take 4 ?rows" and "drop (Suc 4) ?rows2 = drop 5 ?rows"
    by (simp_all add: program_rows_def emitted_simps WithEnvironment_def)
  moreover have "rows_text [?rows2 ! 4] = []"
    by (simp add: program_rows_def emitted_simps WithEnvironment_def rows_text_Cons rows_text_Nil
          IsSet_def Get_def Set_opt_def combineSsMap_def)
  ultimately have b: "rows_text ?rows2 = rows_text (take 4 ?rows) @ rows_text (drop 5 ?rows)"
    by simp
  from a b show ?thesis
    by (simp only: GenerateProgramConfig_rows [OF r1] GenerateProgramConfig_rows [OF r2] simp_thms)
qed

lemma basic_service_renderable: "renderable basic_service"
proof -
  have "apply_calls [] basic_service = Inr basic_service" by simp
  with basic_service_eq show ?thesis by (rule built_renderable)
qed

theorem empty_exit_codes_and_empty_environment_witness:
  "renderable basic_service
   \<and> GenerateProgramConfig [] (Some (WithExitCodes [] basic_service)) =
       Inr ''[program:basic-service]\<newline>user            = deploy\<newline>directory       = /opt/basic-service\<newline>command         = /opt/basic-service/bin/basic-service\<newline>stdout_logfile  = /var/log/basic/basic-service.log\<newline>stderr_logfile  = /var/log/basic/basic-service.err\<newline>exitcodes       = \<newline>''
   \<and> GenerateProgramConfig [] (Some (WithEnvironment Map.empty basic_service)) =
       Inr ''[program:basic-service]\<newline>user            = deploy\<newline>directory       = /opt/basic-service\<newline>command         = /opt/basic-service/bin/basic-service\<newline>stdout_logfile  = /var/log/basic/basic-service.log\<newline>stderr_logfile  = /var/log/basic/basic-service.err\<newline>''"
proof -
  have em: "emitted [] basic_service f = False" for f
    using basic_service_unset [of f] by (simp add: emitted_def)
  from empty_exit_codes_and_empty_environment [OF basic_service_renderable, of "[]"]
  show ?thesis
    by (simp add: basic_service_renderable program_rows_def rows_text_Cons rows_text_Nil em
          basic_service_fields filepath_Join_def Clean_def)
qed

lemma GenerateProgramConfig_blank:
  assumes "Name p = [] \<or> Root p = [] \<or> UserName p = [] \<or> SlogRoot p = []"
  shows "GenerateProgramConfig kvs (Some p) = Inl ZeroValuePanic"
proof -
  have full: "must_Full (Some p) = Inr p"
    by (simp add: must_Full_def)
  from assms show ?thesis
    unfolding GenerateProgramConfig_def
    by (elim disjE) (simp_all only: full and_then_Inr and_then_must_Nice if_True if_cancel simp_thms)
qed

lemma GenerateProgramConfig_other:
  assumes "\<not> (Name p = [] \<or> Root p = [] \<or> UserName p = [] \<or> SlogRoot p = [])"
    and "IsSet (AutoRestart p)" and "Get (AutoRestart p) = AnyOther"
  shows "GenerateProgramConfig kvs (Some p) = Inl ImpossibleInvalidType"
proof -
  from assms(1) have req: "must_Nice (Name p) = Inr (Name p)" "must_Nice (Root p) = Inr (Root p)"
    "must_Nice (UserName p) = Inr (UserName p)" "must_Nice (SlogRoot p) = Inr (SlogRoot p)"
    by (simp_all add: must_Nice_def)
  have full: "must_Full (Some p) = Inr p"
    by (simp add: must_Full_def)
  from assms(2,3) have ar: "(if IsSet (AutoRestart p)
          then (case Get (AutoRestart p) of
                  AnyBool v \<Rightarrow> Inr (Println [''autorestart     = '' @ FormatBool v] ptx)
                | AnyString v \<Rightarrow> Inr (Println [''autorestart     = '' @ v] ptx)
                | AnyOther \<Rightarrow> Inl ImpossibleInvalidType)
          else Inr ptx) = Inl ImpossibleInvalidType" for ptx
    by simp
  show ?thesis
    unfolding GenerateProgramConfig_def
    by (simp only: full req ar and_then_Inr and_then_Inl Let_def cong: and_then_weak_cong)
qed

lemma GenerateProgramConfig_error_same:
  assumes "\<not> renderable p"
  shows "GenerateProgramConfig kvs1 (Some p) = GenerateProgramConfig kvs2 (Some p)"
proof (cases "Name p = [] \<or> Root p = [] \<or> UserName p = [] \<or> SlogRoot p = []")
  case True
  from GenerateProgramConfig_blank [OF True, of kvs1] GenerateProgramConfig_blank [OF True, of kvs2]
  show ?thesis by simp
next
  case False
  with assms have s: "IsSet (AutoRestart p)" and v: "Get (AutoRestart p) = AnyOther"
    by (simp_all add: renderable_def)
  from GenerateProgramConfig_other [OF False s v, of kvs1]
    GenerateProgramConfig_other [OF False s v, of kvs2]
  show ?thesis by simp
qed

lemma range_of_length:
  assumes "range_of items kvs"
  shows "length kvs = card (dom items)"
proof -
  from assms have "items = map_of kvs"
    by (simp add: range_of_def)
  then have "dom items = set (map fst kvs)"
    by (simp add: dom_map_of_conv_image_fst)
  moreover from assms have "distinct (map fst kvs)"
    by (simp add: range_of_def)
  then have "card (set (map fst kvs)) = length (map fst kvs)"
    by (rule distinct_card)
  ultimately show ?thesis by simp
qed

lemma range_of_unique:
  assumes "range_of items kvs1" and "range_of items kvs2" and "card (dom items) \<le> 1"
  shows "kvs1 = kvs2"
proof -
  from assms have l1: "length kvs1 \<le> 1" and l2: "length kvs2 = length kvs1"
    by (simp_all add: range_of_length)
  from assms(1,2) have eq: "map_of kvs1 = map_of kvs2"
    by (simp add: range_of_def)
  show ?thesis
  proof (cases kvs1)
    case Nil
    with l2 show ?thesis by simp
  next
    case (Cons a as)
    with l1 have as: "as = []" by simp
    from Cons l2 as obtain b where b: "kvs2 = [b]"
      by (cases kvs2) auto
    obtain k v where a: "a = (k, v)" by (cases a)
    obtain k' v' where b': "b = (k', v')" by (cases b)
    from eq have "map_of kvs1 k = map_of kvs2 k" by simp
    with Cons as b a b' have "k = k' \<and> v = v'"
      by (auto split: if_splits)
    with Cons as b a b' show ?thesis by simp
  qed
qed

text \<open>
  C4, as amended. The rendered text is a function of the configuration and of the order
  in which the runtime iterates over the environment map. Two renderings of the same
  configuration are byte-identical whenever the environment field is unset or its map
  has at most one key, whatever orders \<open>kvs1\<close> and \<open>kvs2\<close> the two calls meet.
\<close>

theorem rendering_deterministic_small_environment:
  assumes "range_of (Get (Environment p)) kvs1" and "range_of (Get (Environment p)) kvs2"
    and "\<not> IsSet (Environment p) \<or> card (dom (Get (Environment p))) \<le> 1"
  shows "GenerateProgramConfig kvs1 (Some p) = GenerateProgramConfig kvs2 (Some p)"
proof (cases "renderable p")
  case False
  then show ?thesis by (rule GenerateProgramConfig_error_same)
next
  case True
  show ?thesis
  proof (cases "IsSet (Environment p)")
    case set: True
    with assms(3) have "card (dom (Get (Environment p))) \<le> 1" by simp
    with assms(1,2) have "kvs1 = kvs2" by (rule range_of_unique)
    then show ?thesis by simp
  next
    case unset: False
    then have "rows_text (program_rows (emitted kvs1 p) kvs1 p) =
               rows_text (program_rows (emitted kvs2 p) kvs2 p)"
      unfolding program_rows_def
      by (simp only: rows_text_Cons rows_text_Nil emitted_simps simp_thms if_False)
    then show ?thesis by (simp only: GenerateProgramConfig_rows [OF True])
  qed
qed

theorem rendering_deterministic_small_environment_witness:
  "range_of (Get (Environment myapp)) [(''APP_ENV'', ''production'')]
   \<and> card (dom (Get (Environment myapp))) \<le> 1
   \<and> GenerateProgramConfig [(''APP_ENV'', ''production'')] (Some myapp) =
     GenerateProgramConfig [(''APP_ENV'', ''production'')] (Some myapp)"
proof -
  have "Get (Environment myapp) = [''APP_ENV'' \<mapsto> ''production'']"
    by (simp add: myapp_def myapp_calls_def and_then_Inr setter_defs Get_def Set_opt_def)
  then have c: "card (dom (Get (Environment myapp))) \<le> 1" by simp
  then have "\<not> IsSet (Environment myapp) \<or> card (dom (Get (Environment myapp))) \<le> 1" ..
  from rendering_deterministic_small_environment [OF myapp_range myapp_range this] myapp_range c
  show ?thesis by simp
qed

text \<open>
  The claim as stated fails for a map with two keys: both orders are iterations over the
  map, and the two renderings differ in the environment line.
\<close>

theorem two_keys_order_counterexample:
  "range_of (Get (Environment (WithEnvironment two_keys basic_service))) [(''A'', ''1''), (''B'', ''2'')]
   \<and> range_of (Get (Environment (WithEnvironment two_keys basic_service))) [(''B'', ''2''), (''A'', ''1'')]
   \<and> GenerateProgramConfig [(''A'', ''1''), (''B'', ''2'')] (Some (WithEnvironment two_keys basic_service)) =
       Inr ''[program:basic-service]\<newline>user            = deploy\<newline>directory       = /opt/basic-service\<newline>command         = /opt/basic-service/bin/basic-service\<newline>environment     = A=1,B=2\<newline>stdout_logfile  = /var/log/basic/basic-service.log\<newline>stderr_logfile  = /var/log/basic/basic-service.err\<newline>''
   \<and> GenerateProgramConfig [(''B'', ''2''), (''A'', ''1'')] (Some (WithEnvironment two_keys basic_service)) =
       Inr ''[program:basic-service]\<newline>user            = deploy\<newline>directory       = /opt/basic-service\<newline>command         = /opt/basic-service/bin/basic-service\<newline>environment     = B=2,A=1\<newline>stdout_logfile  = /var/log/basic/basic-service.log\<newline>stderr_logfile  = /var/log/basic/basic-service.err\<newline>''
   \<and> GenerateProgramConfig [(''A'', ''1''), (''B'', ''2'')] (Some (WithEnvironment two_keys basic_service)) \<noteq>
     GenerateProgramConfig [(''B'', ''2''), (''A'', ''1'')] (Some (WithEnvironment two_keys basic_service))"
proof -
  let ?p = "WithEnvironment two_keys basic_service"
  have env: "Get (Environment ?p) = two_keys"
    by (simp add: WithEnvironment_def Get_def Set_opt_def)
  have ne: "two_keys \<noteq> Map.empty"
    by (simp add: two_keys_def)
  have r: "renderable ?p"
    using basic_service_renderable by (simp add: renderable_def WithEnvironment_def)
  have fields: "Name ?p = ''basic-service''" "Root ?p = ''/opt/basic-service''"
    "UserName ?p = ''deploy''" "SlogRoot ?p = ''/var/log/basic''"
    by (simp_all add: WithEnvironment_def basic_service_fields)
  have em: "emitted kvs ?p f = (f = FEnvironment \<and> combineSsMap kvs two_keys '','' \<noteq> [])" for f kvs
    using basic_service_unset [of f]
    by (cases f) (simp_all add: emitted_def WithEnvironment_def IsSet_def Get_def Set_opt_def)
  have r1: "range_of two_keys [(''A'', ''1''), (''B'', ''2'')]"
    by (auto simp add: range_of_def two_keys_def fun_eq_iff)
  have r2: "range_of two_keys [(''B'', ''2''), (''A'', ''1'')]"
    by (auto simp add: range_of_def two_keys_def fun_eq_iff)
  have t1: "GenerateProgramConfig [(''A'', ''1''), (''B'', ''2'')] (Some ?p) =
       Inr ''[program:basic-service]\<newline>user            = deploy\<newline>directory       = /opt/basic-service\<newline>command         = /opt/basic-service/bin/basic-service\<newline>environment     = A=1,B=2\<newline>stdout_logfile  = /var/log/basic/basic-service.log\<newline>stderr_logfile  = /var/log/basic/basic-service.err\<newline>''"
    unfolding GenerateProgramConfig_rows [OF r]
    by (simp add: program_rows_def rows_text_Cons rows_text_Nil em env fields combineSsMap_def ne
          filepath_Join_def Clean_def)
  have t2: "GenerateProgramConfig [(''B'', ''2''), (''A'', ''1'')] (Some ?p) =
       Inr ''[program:basic-service]\<newline>user            = deploy\<newline>directory       = /opt/basic-service\<newline>command         = /opt/basic-service/bin/basic-service\<newline>environment     = B=2,A=1\<newline>stdout_logfile  = /var/log/basic/basic-service.log\<newline>stderr_logfile  = /var/log/basic/basic-service.err\<newline>''"
    unfolding GenerateProgramConfig_rows [OF r]
    by (simp add: program_rows_def rows_text_Cons rows_text_Nil em env fields combineSsMap_def ne
          filepath_Join_def Clean_def)
  from r1 r2 show ?thesis
    unfolding t1 t2 env by simp
qed

section \<open>The group renderer\<close>

lemma names_foldl: "foldl (\<lambda>programs p. programs @ [Name p]) acc ps = acc @ map Name ps"
  by (induction ps arbitrary: acc) simp_all

lemma Println_two:
  "Println [s] (Println [] ptx) = ptx\<lparr>buf := buf ptx @ [CHR 0x0A] @ s @ [CHR 0x0A]\<rparr>"
  by (simp add: Println_def)

lemma group_loop_Inr:
  assumes "length texts = length ps"
    and "\<forall>i<length ps. GenerateProgramConfig (ord (k + i)) (Some (ps ! i)) = Inr (texts ! i)"
  shows "group_loop ord k ps ptx =
           Inr (ptx\<lparr>buf := buf ptx @ concat (map (\<lambda>t. [CHR 0x0A] @ TrimSpace t @ [CHR 0x0A]) texts)\<rparr>)"
  using assms
proof (induction ps arbitrary: k ptx texts)
  case Nil
  then show ?case by simp
next
  case (Cons p ps)
  from Cons.prems(1) obtain t ts where texts: "texts = t # ts" and len: "length ts = length ps"
    by (cases texts) auto
  from Cons.prems(2) texts have hd: "GenerateProgramConfig (ord k) (Some p) = Inr t"
    by auto
  have "\<forall>i<length ps. GenerateProgramConfig (ord (Suc k + i)) (Some (ps ! i)) = Inr (ts ! i)"
  proof (intro allI impI)
    fix i assume "i < length ps"
    then have "Suc i < length (p # ps)" by simp
    with Cons.prems(2) have "GenerateProgramConfig (ord (k + Suc i)) (Some ((p # ps) ! Suc i)) = Inr (texts ! Suc i)"
      by blast
    with texts show "GenerateProgramConfig (ord (Suc k + i)) (Some (ps ! i)) = Inr (ts ! i)"
      by simp
  qed
  with len have "group_loop ord (Suc k) ps ptx' =
           Inr (ptx'\<lparr>buf := buf ptx' @ concat (map (\<lambda>t. [CHR 0x0A] @ TrimSpace t @ [CHR 0x0A]) ts)\<rparr>)" for ptx'
    by (rule Cons.IH)
  then show ?case
    by (simp add: hd and_then_Inr Println_two texts)
qed

lemma group_loop_Inl:
  assumes "i < length ps"
    and "GenerateProgramConfig (ord (k + i)) (Some (ps ! i)) = Inl e"
  shows "\<exists>e'. group_loop ord k ps ptx = Inl e'"
  using assms
proof (induction ps arbitrary: k ptx i)
  case Nil
  then show ?case by simp
next
  case (Cons p ps)
  show ?case
  proof (cases "GenerateProgramConfig (ord k) (Some p)")
    case (Inl e0)
    then show ?thesis by (simp add: and_then_Inl)
  next
    case (Inr cfs)
    with Cons.prems obtain j where i: "i = Suc j"
      by (cases i) auto
    with Cons.prems have "j < length ps"
      and "GenerateProgramConfig (ord (Suc k + j)) (Some (ps ! j)) = Inl e"
      by simp_all
    then have "\<exists>e'. group_loop ord (Suc k) ps ptx' = Inl e'" for ptx'
      by (rule Cons.IH)
    with Inr show ?thesis by (simp add: and_then_Inr)
  qed
qed

lemma group_loop_texts:
  assumes "group_loop ord k ps ptx = Inr ptx'"
  shows "\<exists>texts. length texts = length ps
           \<and> (\<forall>i<length ps. GenerateProgramConfig (ord (k + i)) (Some (ps ! i)) = Inr (texts ! i))"
  using assms
proof (induction ps arbitrary: k ptx)
  case Nil
  then show ?case by simp
next
  case (Cons p ps)
  from Cons.prems obtain cfs where hd: "GenerateProgramConfig (ord k) (Some p) = Inr cfs"
    by (cases "GenerateProgramConfig (ord k) (Some p)") (simp_all add: and_then_def)
  with Cons.prems have "group_loop ord (Suc k) ps (Println [TrimSpace cfs] (Println [] ptx)) = Inr ptx'"
    by (simp add: and_then_Inr)
  then obtain ts where len: "length ts = length ps"
    and all: "\<forall>i<length ps. GenerateProgramConfig (ord (Suc k + i)) (Some (ps ! i)) = Inr (ts ! i)"
    using Cons.IH by blast
  have "\<forall>i<length (p # ps). GenerateProgramConfig (ord (k + i)) (Some ((p # ps) ! i)) = Inr ((cfs # ts) ! i)"
  proof (intro allI impI)
    fix i assume "i < length (p # ps)"
    then show "GenerateProgramConfig (ord (k + i)) (Some ((p # ps) ! i)) = Inr ((cfs # ts) ! i)"
      using hd all by (cases i) simp_all
  qed
  with len show ?case
    by (intro exI [of _ "cfs # ts"]) simp
qed

lemma GenerateGroupConfig_loop:
  assumes "GroupName g \<noteq> []" and "Programs g \<noteq> []"
  shows "GenerateGroupConfig ord (Some g) =
           and_then (group_loop ord 0 (Programs g)
             \<lparr>buf = ''[group:'' @ GroupName g @ '']'' @ [CHR 0x0A]
                    @ ''programs='' @ strings_Join (map Name (Programs g)) '','' @ [CHR 0x0A]
                    @ [CHR 0x0A]\<rparr>)
             (\<lambda>ptx. Inr (buf ptx))"
  using assms
  by (simp add: GenerateGroupConfig_def must_Full_def must_Nice_def must_Have_def and_then_Inr
        names_foldl NewPTX_def Println_def String_ptx_def)

lemma basic_service_text:
  "GenerateProgramConfig [] (Some basic_service) =
     Inr ''[program:basic-service]\<newline>user            = deploy\<newline>directory       = /opt/basic-service\<newline>command         = /opt/basic-service/bin/basic-service\<newline>stdout_logfile  = /var/log/basic/basic-service.log\<newline>stderr_logfile  = /var/log/basic/basic-service.err\<newline>''"
proof -
  have em: "emitted [] basic_service f = False" for f
    using basic_service_unset [of f] by (simp add: emitted_def)
  show ?thesis
    unfolding GenerateProgramConfig_rows [OF basic_service_renderable]
    by (simp add: program_rows_def rows_text_Cons rows_text_Nil em basic_service_fields
          filepath_Join_def Clean_def)
qed

lemma basic_service_trimmed:
  "TrimSpace ''[program:basic-service]\<newline>user            = deploy\<newline>directory       = /opt/basic-service\<newline>command         = /opt/basic-service/bin/basic-service\<newline>stdout_logfile  = /var/log/basic/basic-service.log\<newline>stderr_logfile  = /var/log/basic/basic-service.err\<newline>'' =
     ''[program:basic-service]\<newline>user            = deploy\<newline>directory       = /opt/basic-service\<newline>command         = /opt/basic-service/bin/basic-service\<newline>stdout_logfile  = /var/log/basic/basic-service.log\<newline>stderr_logfile  = /var/log/basic/basic-service.err''"
  by (simp add: TrimSpace_def ascii_space_def space2_def space3_def)

lemma one_member_group_fields:
  "GroupName one_member_group = ''services''" "Programs one_member_group = [basic_service]"
  by (simp_all add: one_member_group_def AddProgram_def NewGroupConfig_def must_Nice_def and_then_def)

section \<open>Claims about the group renderer\<close>

text \<open>
  C3, as amended. For a group with a non-empty name and at least one program, all of
  which render (to \<open>texts\<close>, in insertion order), the group renderer returns exactly:
  the \<open>[group:name]\<close> line, the \<open>programs=\<close> line with the names joined by commas in
  insertion order, one blank line, and then for each program in insertion order one
  blank line and the trimmed rendering of the program followed by a newline. The first
  program block therefore follows two blank lines, each later block one.
\<close>

theorem group_text_two_blank_lines:
  assumes "GroupName g \<noteq> []" and "Programs g \<noteq> []"
    and "length texts = length (Programs g)"
    and "\<forall>i<length (Programs g). GenerateProgramConfig (ord i) (Some (Programs g ! i)) = Inr (texts ! i)"
  shows "GenerateGroupConfig ord (Some g) =
           Inr (group_text (GroupName g) (map Name (Programs g)) texts)"
proof -
  from assms(4) have "\<forall>i<length (Programs g).
      GenerateProgramConfig (ord (0 + i)) (Some (Programs g ! i)) = Inr (texts ! i)"
    by simp
  with assms(3) show ?thesis
    unfolding GenerateGroupConfig_loop [OF assms(1,2)]
    by (simp add: group_loop_Inr and_then_Inr group_text_def)
qed

theorem group_text_two_blank_lines_witness:
  "GroupName one_member_group \<noteq> [] \<and> Programs one_member_group \<noteq> []
   \<and> GenerateProgramConfig (no_env_order 0) (Some (Programs one_member_group ! 0)) =
       Inr ''[program:basic-service]\<newline>user            = deploy\<newline>directory       = /opt/basic-service\<newline>command         = /opt/basic-service/bin/basic-service\<newline>stdout_logfile  = /var/log/basic/basic-service.log\<newline>stderr_logfile  = /var/log/basic/basic-service.err\<newline>''
   \<and> GenerateGroupConfig no_env_order (Some one_member_group) =
       Inr ''[group:services]\<newline>programs=basic-service\<newline>\<newline>\<newline>[program:basic-service]\<newline>user            = deploy\<newline>directory       = /opt/basic-service\<newline>command         = /opt/basic-service/bin/basic-service\<newline>stdout_logfile  = /var/log/basic/basic-service.log\<newline>stderr_logfile  = /var/log/basic/basic-service.err\<newline>''"
proof -
  let ?t = "''[program:basic-service]\<newline>user            = deploy\<newline>directory       = /opt/basic-service\<newline>command         = /opt/basic-service/bin/basic-service\<newline>stdout_logfile  = /var/log/basic/basic-service.log\<newline>stderr_logfile  = /var/log/basic/basic-service.err\<newline>''"
  have h1: "GroupName one_member_group \<noteq> []" and h2: "Programs one_member_group \<noteq> []"
    by (simp_all add: one_member_group_fields)
  have h3: "length [?t] = length (Programs one_member_group)"
    by (simp add: one_member_group_fields)
  have h4: "\<forall>i<length (Programs one_member_group).
      GenerateProgramConfig (no_env_order i) (Some (Programs one_member_group ! i)) = Inr ([?t] ! i)"
    by (simp add: one_member_group_fields no_env_order_def basic_service_text)
  from group_text_two_blank_lines [OF h1 h2 h3 h4]
  have "GenerateGroupConfig no_env_order (Some one_member_group) =
       Inr ''[group:services]\<newline>programs=basic-service\<newline>\<newline>\<newline>[program:basic-service]\<newline>user            = deploy\<newline>directory       = /opt/basic-service\<newline>command         = /opt/basic-service/bin/basic-service\<newline>stdout_logfile  = /var/log/basic/basic-service.log\<newline>stderr_logfile  = /var/log/basic/basic-service.err\<newline>''"
    by (simp add: group_text_def one_member_group_fields basic_service_fields basic_service_trimmed)
  with h1 h2 show ?thesis
    by (simp add: one_member_group_fields no_env_order_def basic_service_text)
qed

text \<open>
  The claim as stated counts one blank line more: for the group of the one default
  program the renderer puts two blank lines before the program block, where the five
  enumerated steps put three.
\<close>

theorem three_blank_lines_counterexample:
  "GroupName one_member_group = ''services'' \<and> Programs one_member_group = [basic_service]
   \<and> GenerateProgramConfig (no_env_order 0) (Some basic_service) =
       Inr ''[program:basic-service]\<newline>user            = deploy\<newline>directory       = /opt/basic-service\<newline>command         = /opt/basic-service/bin/basic-service\<newline>stdout_logfile  = /var/log/basic/basic-service.log\<newline>stderr_logfile  = /var/log/basic/basic-service.err\<newline>''
   \<and> GenerateGroupConfig no_env_order (Some one_member_group) =
       Inr ''[group:services]\<newline>programs=basic-service\<newline>\<newline>\<newline>[program:basic-service]\<newline>user            = deploy\<newline>directory       = /opt/basic-service\<newline>command         = /opt/basic-service/bin/basic-service\<newline>stdout_logfile  = /var/log/basic/basic-service.log\<newline>stderr_logfile  = /var/log/basic/basic-service.err\<newline>''
   \<and> enumerated_group_text ''services'' [''basic-service'']
         [''[program:basic-service]\<newline>user            = deploy\<newline>directory       = /opt/basic-service\<newline>command         = /opt/basic-service/bin/basic-service\<newline>stdout_logfile  = /var/log/basic/basic-service.log\<newline>stderr_logfile  = /var/log/basic/basic-service.err\<newline>''] =
       ''[group:services]\<newline>programs=basic-service\<newline>\<newline>\<newline>\<newline>[program:basic-service]\<newline>user            = deploy\<newline>directory       = /opt/basic-service\<newline>command         = /opt/basic-service/bin/basic-service\<newline>stdout_logfile  = /var/log/basic/basic-service.log\<newline>stderr_logfile  = /var/log/basic/basic-service.err\<newline>''
   \<and> GenerateGroupConfig no_env_order (Some one_member_group) \<noteq>
       Inr (enumerated_group_text ''services'' [''basic-service'']
         [''[program:basic-service]\<newline>user            = deploy\<newline>directory       = /opt/basic-service\<newline>command         = /opt/basic-service/bin/basic-service\<newline>stdout_logfile  = /var/log/basic/basic-service.log\<newline>stderr_logfile  = /var/log/basic/basic-service.err\<newline>''])"
proof -
  let ?t = "''[program:basic-service]\<newline>user            = deploy\<newline>directory       = /opt/basic-service\<newline>command         = /opt/basic-service/bin/basic-service\<newline>stdout_logfile  = /var/log/basic/basic-service.log\<newline>stderr_logfile  = /var/log/basic/basic-service.err\<newline>''"
  have g: "GenerateGroupConfig no_env_order (Some one_member_group) =
       Inr ''[group:services]\<newline>programs=basic-service\<newline>\<newline>\<newline>[program:basic-service]\<newline>user            = deploy\<newline>directory       = /opt/basic-service\<newline>command         = /opt/basic-service/bin/basic-service\<newline>stdout_logfile  = /var/log/basic/basic-service.log\<newline>stderr_logfile  = /var/log/basic/basic-service.err\<newline>''"
    by (simp add: GenerateGroupConfig_loop one_member_group_fields and_then_Inr
          no_env_order_def basic_service_text Println_def basic_service_fields
          basic_service_trimmed)
  have e: "enumerated_group_text ''services'' [''basic-service''] [?t] =
       ''[group:services]\<newline>programs=basic-service\<newline>\<newline>\<newline>\<newline>[program:basic-service]\<newline>user            = deploy\<newline>directory       = /opt/basic-service\<newline>command         = /opt/basic-service/bin/basic-service\<newline>stdout_logfile  = /var/log/basic/basic-service.log\<newline>stderr_logfile  = /var/log/basic/basic-service.err\<newline>''"
    by (simp add: enumerated_group_text_def basic_service_trimmed)
  show ?thesis
    unfolding g e
    by (simp add: one_member_group_fields no_env_order_def basic_service_text)
qed

text \<open>
  C9, as amended. The group renderer panics exactly when the name of the group is empty,
  the sequence of programs is empty, or the rendering of one of its programs panics (an
  empty required string, or an auto-restart value that is neither boolean nor string).
  A panic returns no text at all; and when the renderer returns a text, every program
  has rendered and the text is the complete text of the group.
\<close>

theorem group_fails_iff:
  "((\<exists>e. GenerateGroupConfig ord (Some g) = Inl e) =
      (GroupName g = [] \<or> Programs g = []
       \<or> (\<exists>i<length (Programs g). \<exists>e. GenerateProgramConfig (ord i) (Some (Programs g ! i)) = Inl e)))
   \<and> (\<forall>t. GenerateGroupConfig ord (Some g) = Inr t \<longrightarrow>
        (\<exists>texts. length texts = length (Programs g)
           \<and> (\<forall>i<length (Programs g). GenerateProgramConfig (ord i) (Some (Programs g ! i)) = Inr (texts ! i))
           \<and> t = group_text (GroupName g) (map Name (Programs g)) texts))"
proof (cases "GroupName g = [] \<or> Programs g = []")
  case True
  then have "\<exists>e. GenerateGroupConfig ord (Some g) = Inl e"
    by (auto simp add: GenerateGroupConfig_def must_Full_def must_Nice_def must_Have_def and_then_def)
  with True show ?thesis by auto
next
  case False
  then have n: "GroupName g \<noteq> []" and ps: "Programs g \<noteq> []" by simp_all
  let ?ptx = "\<lparr>buf = ''[group:'' @ GroupName g @ '']'' @ [CHR 0x0A]
                    @ ''programs='' @ strings_Join (map Name (Programs g)) '','' @ [CHR 0x0A]
                    @ [CHR 0x0A]\<rparr>"
  note loop = GenerateGroupConfig_loop [OF n ps, of ord]
  show ?thesis
  proof (cases "group_loop ord 0 (Programs g) ?ptx")
    case (Inl e)
    then have fails: "GenerateGroupConfig ord (Some g) = Inl e"
      by (simp add: loop and_then_Inl)
    have "\<exists>i<length (Programs g). \<exists>e. GenerateProgramConfig (ord i) (Some (Programs g ! i)) = Inl e"
    proof (rule ccontr)
      assume "\<not> ?thesis"
      then have "\<forall>i<length (Programs g). \<exists>t. GenerateProgramConfig (ord i) (Some (Programs g ! i)) = Inr t"
        by (metis sum.exhaust)
      then obtain f where f: "\<forall>i<length (Programs g). GenerateProgramConfig (ord i) (Some (Programs g ! i)) = Inr (f i)"
        by metis
      let ?texts = "map f [0..<length (Programs g)]"
      have "length ?texts = length (Programs g)" by simp
      moreover from f have "\<forall>i<length (Programs g).
          GenerateProgramConfig (ord (0 + i)) (Some (Programs g ! i)) = Inr (?texts ! i)"
        by simp
      ultimately have "\<exists>ptx'. group_loop ord 0 (Programs g) ?ptx = Inr ptx'"
        using group_loop_Inr [of ?texts "Programs g" ord 0 ?ptx] by blast
      with Inl show False by simp
    qed
    with fails show ?thesis by simp
  next
    case (Inr ptx')
    then obtain texts where len: "length texts = length (Programs g)"
      and all: "\<forall>i<length (Programs g). GenerateProgramConfig (ord (0 + i)) (Some (Programs g ! i)) = Inr (texts ! i)"
      using group_loop_texts by blast
    from all have all': "\<forall>i<length (Programs g). GenerateProgramConfig (ord i) (Some (Programs g ! i)) = Inr (texts ! i)"
      by simp
    from group_loop_Inr [OF len all, of ?ptx]
    have ok: "GenerateGroupConfig ord (Some g) = Inr (group_text (GroupName g) (map Name (Programs g)) texts)"
      by (simp add: loop and_then_Inr group_text_def)
    from all' have "\<not> (\<exists>i<length (Programs g). \<exists>e. GenerateProgramConfig (ord i) (Some (Programs g ! i)) = Inl e)"
      by auto
    with ok n ps len all' show ?thesis by auto
  qed
qed

theorem group_fails_iff_witness:
  "Programs (projr (NewGroupConfig ''services'')) = []
   \<and> (\<exists>e. GenerateGroupConfig no_env_order (Some (projr (NewGroupConfig ''services''))) = Inl e)
   \<and> GroupName one_member_group \<noteq> [] \<and> Programs one_member_group \<noteq> []
   \<and> \<not> (\<exists>e. GenerateGroupConfig no_env_order (Some one_member_group) = Inl e)"
proof -
  have empty: "Programs (projr (NewGroupConfig ''services'')) = []"
    by (simp add: NewGroupConfig_def must_Nice_def and_then_def)
  from group_fails_iff [of no_env_order "projr (NewGroupConfig ''services'')"]
  have "(\<exists>e. GenerateGroupConfig no_env_order (Some (projr (NewGroupConfig ''services''))) = Inl e) =
      (GroupName (projr (NewGroupConfig ''services'')) = [] \<or> Programs (projr (NewGroupConfig ''services'')) = []
       \<or> (\<exists>i<length (Programs (projr (NewGroupConfig ''services''))). \<exists>e.
            GenerateProgramConfig (no_env_order i) (Some (Programs (projr (NewGroupConfig ''services'')) ! i)) = Inl e))"
    by (rule conjunct1)
  with empty have a: "\<exists>e. GenerateGroupConfig no_env_order (Some (projr (NewGroupConfig ''services''))) = Inl e"
    by simp
  from group_fails_iff [of no_env_order one_member_group]
  have "(\<exists>e. GenerateGroupConfig no_env_order (Some one_member_group) = Inl e) =
      (GroupName one_member_group = [] \<or> Programs one_member_group = []
       \<or> (\<exists>i<length (Programs one_member_group). \<exists>e.
            GenerateProgramConfig (no_env_order i) (Some (Programs one_member_group ! i)) = Inl e))"
    by (rule conjunct1)
  then have b: "\<not> (\<exists>e. GenerateGroupConfig no_env_order (Some one_member_group) = Inl e)"
    by (simp add: one_member_group_fields no_env_order_def basic_service_text)
  from empty a b show ?thesis
    by (simp add: one_member_group_fields)
qed

text \<open>
  The claim as stated fails in both directions: a group with a non-blank name and one
  program panics when that program has lost its name, and a group whose name is a single
  space, which is blank, renders.
\<close>

theorem nameless_member_counterexample:
  "GroupName nameless_member_group = ''services''
   \<and> \<not> blank (GroupName nameless_member_group)
   \<and> Programs nameless_member_group = [basic_service\<lparr>Name := []\<rparr>]
   \<and> GenerateGroupConfig no_env_order (Some nameless_member_group) = Inl ZeroValuePanic
   \<and> blank (GroupName (one_member_group\<lparr>GroupName := '' ''\<rparr>))
   \<and> Programs (one_member_group\<lparr>GroupName := '' ''\<rparr>) = [basic_service]
   \<and> \<not> isl (GenerateGroupConfig no_env_order (Some (one_member_group\<lparr>GroupName := '' ''\<rparr>)))"
proof -
  have f: "GroupName nameless_member_group = ''services''"
    "Programs nameless_member_group = [basic_service\<lparr>Name := []\<rparr>]"
    by (simp_all add: nameless_member_group_def AddProgram_def NewGroupConfig_def must_Nice_def and_then_def)
  have nb: "\<not> blank ''services''"
    by (simp add: blank_def TrimSpace_def ascii_space_def space2_def space3_def)
  have bl: "blank '' ''"
    by (simp add: blank_def TrimSpace_def ascii_space_def)
  have member: "GenerateProgramConfig kvs (Some (basic_service\<lparr>Name := []\<rparr>)) = Inl ZeroValuePanic" for kvs
    by (rule GenerateProgramConfig_blank) simp
  have fails: "GenerateGroupConfig no_env_order (Some nameless_member_group) = Inl ZeroValuePanic"
    by (simp add: GenerateGroupConfig_loop f member and_then_Inl)
  have "GenerateGroupConfig no_env_order (Some (one_member_group\<lparr>GroupName := '' ''\<rparr>)) =
          Inr (group_text '' '' [''basic-service'']
            [''[program:basic-service]\<newline>user            = deploy\<newline>directory       = /opt/basic-service\<newline>command         = /opt/basic-service/bin/basic-service\<newline>stdout_logfile  = /var/log/basic/basic-service.log\<newline>stderr_logfile  = /var/log/basic/basic-service.err\<newline>''])"
    by (simp add: GenerateGroupConfig_loop one_member_group_fields and_then_Inr
          no_env_order_def basic_service_text Println_def basic_service_fields group_text_def)
  then have ok: "\<not> isl (GenerateGroupConfig no_env_order (Some (one_member_group\<lparr>GroupName := '' ''\<rparr>)))"
    by simp
  from f nb bl fails ok show ?thesis
    by (simp add: one_member_group_fields)
qed

end
